theory Spec2Isabelle
  imports Main "HOL-Library.Char_ord" "HOL-Library.List_Lexorder" "HOL-Library.AList"
begin

section \<open>The explorer's synchronization engine\<close>

text \<open>
  A shallow embedding of \<^verbatim>\<open>backend/indexer/service.py\<close> (class \<^verbatim>\<open>IndexerService\<close>),
  \<^verbatim>\<open>backend/indexer/client.py\<close> (the two hash functions of \<^verbatim>\<open>BlockchainClient\<close>),
  \<^verbatim>\<open>backend/core/database.py\<close> (\<^verbatim>\<open>get_session_context\<close>) and the tables declared in
  \<^verbatim>\<open>backend/models\<close>.

  Conventions. A Python exception is a value \<open>Inl e\<close> of a sum type. Asynchronous code
  is modelled by its sequential order of effects (there is one indexer task, and its only
  fan-out, \<^verbatim>\<open>asyncio.gather\<close>, returns its results in task order). The database and the
  sequence of observable events (transaction boundaries, calls to the node) form the
  \<open>world\<close> that every operation takes and returns.
\<close>

subsection \<open>JSON values and the Python operations applied to them\<close>

text \<open>
  What \<^verbatim>\<open>resp.json()\<close> hands to the indexer: \<open>JNull\<close> is Python's \<^verbatim>\<open>None\<close>, \<open>JObj\<close> a
  \<^verbatim>\<open>dict\<close> given by its items (looked up with \<open>map_of\<close>), \<open>JArr\<close> a \<^verbatim>\<open>list\<close>. Strings
  are over the code points 0..255. JSON booleans and non-integer numbers are left out of
  the model.
\<close>

datatype json =
    JNull
  | JInt int
  | JStr string
  | JArr "json list"
  | JObj "(string \<times> json) list"

datatype error =
    AttributeError
  | KeyError
  | TypeError
  | ValueError
  | InvalidOperation
  | IntegrityError
  | OperationalError

definition ebind :: "error + 'a \<Rightarrow> ('a \<Rightarrow> error + 'b) \<Rightarrow> error + 'b" where
  "ebind m f = (case m of Inl e \<Rightarrow> Inl e | Inr x \<Rightarrow> f x)"

text \<open>\<^verbatim>\<open>d.get(k, dflt)\<close>: only a dict has the method.\<close>

fun dict_get :: "json \<Rightarrow> string \<Rightarrow> json \<Rightarrow> error + json" where
  "dict_get (JObj kvs) k dflt = Inr (case map_of kvs k of None \<Rightarrow> dflt | Some v \<Rightarrow> v)"
| "dict_get _ k dflt = Inl AttributeError"

text \<open>\<^verbatim>\<open>d[k]\<close> with a string key: a missing key raises KeyError, any other value raises
  TypeError (not subscriptable, or indices must be integers).\<close>

fun dict_index :: "json \<Rightarrow> string \<Rightarrow> error + json" where
  "dict_index (JObj kvs) k = (case map_of kvs k of None \<Rightarrow> Inl KeyError | Some v \<Rightarrow> Inr v)"
| "dict_index _ k = Inl TypeError"

text \<open>Truth value of an object in a condition.\<close>

fun truthy :: "json \<Rightarrow> bool" where
  "truthy JNull = False"
| "truthy (JInt i) = (i \<noteq> 0)"
| "truthy (JStr s) = (s \<noteq> [])"
| "truthy (JArr xs) = (xs \<noteq> [])"
| "truthy (JObj kvs) = (kvs \<noteq> [])"

text \<open>\<^verbatim>\<open>len(x)\<close> and the elements a \<^verbatim>\<open>for\<close> loop draws from \<open>x\<close>.\<close>

fun py_len :: "json \<Rightarrow> error + nat" where
  "py_len (JArr xs) = Inr (length xs)"
| "py_len (JObj kvs) = Inr (length kvs)"
| "py_len (JStr s) = Inr (length s)"
| "py_len _ = Inl TypeError"

fun py_iter :: "json \<Rightarrow> error + json list" where
  "py_iter (JArr xs) = Inr xs"
| "py_iter (JObj kvs) = Inr (map (\<lambda>kv. JStr (fst kv)) kvs)"
| "py_iter (JStr s) = Inr (map (\<lambda>c. JStr [c]) s)"
| "py_iter _ = Inl TypeError"

text \<open>The right operand of \<^verbatim>\<open>max(m, h)\<close> with an integer \<open>m\<close>: comparing an int with
  None, a str, a list or a dict raises TypeError.\<close>

fun int_operand :: "json \<Rightarrow> error + int" where
  "int_operand (JInt h) = Inr h"
| "int_operand _ = Inl TypeError"

text \<open>\<^verbatim>\<open>s.add(x)\<close> on a set, kept as a duplicate-free list: lists and dicts are unhashable.\<close>

fun set_add :: "json \<Rightarrow> json list \<Rightarrow> error + json list" where
  "set_add (JArr xs) s = Inl TypeError"
| "set_add (JObj kvs) s = Inl TypeError"
| "set_add x s = Inr (List.insert x s)"

subsection \<open>\<^verbatim>\<open>json.dumps(obj, sort_keys=True)\<close>\<close>

definition digit_char :: "int \<Rightarrow> char" where
  "digit_char n = ''0123456789'' ! nat n"

function str_digits :: "int \<Rightarrow> string" where
  "str_digits n =
     (if n < 10 then [digit_char n] else str_digits (n div 10) @ [digit_char (n mod 10)])"
  by pat_completeness auto
termination
  by (relation "measure nat") auto

declare str_digits.simps [simp del]

definition str_int :: "int \<Rightarrow> string" where
  "str_int i = (if i < 0 then CHR ''-'' # str_digits (- i) else str_digits i)"

definition hex_char :: "int \<Rightarrow> char" where
  "hex_char n = ''0123456789abcdef'' ! nat n"

text \<open>The default \<^verbatim>\<open>ensure_ascii\<close> escaping. The quote (0x22) and the backslash (0x5C)
  get a backslash; every other character from space to tilde stands for itself; of the
  rest, five control characters have a short form and the others the form \<^verbatim>\<open>\u00xx\<close>.\<close>

definition printable :: "char \<Rightarrow> bool" where
  "printable c \<longleftrightarrow> 0x20 \<le> (of_char c :: int) \<and> (of_char c :: int) \<le> 0x7E"

definition escape_char :: "char \<Rightarrow> string" where
  "escape_char c =
     (if c = CHR 0x22 then [CHR 0x5C, CHR 0x22]
      else if c = CHR 0x5C then [CHR 0x5C, CHR 0x5C]
      else if printable c then [c]
      else if c = CHR 0x08 then [CHR 0x5C, CHR ''b'']
      else if c = CHR 0x0C then [CHR 0x5C, CHR ''f'']
      else if c = CHR 0x0A then [CHR 0x5C, CHR ''n'']
      else if c = CHR 0x0D then [CHR 0x5C, CHR ''r'']
      else if c = CHR 0x09 then [CHR 0x5C, CHR ''t'']
      else [CHR 0x5C, CHR ''u'', CHR ''0'', CHR ''0'',
            hex_char (of_char c div 16), hex_char (of_char c mod 16)])"

definition json_str :: "string \<Rightarrow> string" where
  "json_str s = [CHR 0x22] @ concat (map escape_char s) @ [CHR 0x22]"

fun join :: "string \<Rightarrow> string list \<Rightarrow> string" where
  "join sep [] = []"
| "join sep [x] = x"
| "join sep (x # y # ys) = x @ sep @ join sep (y # ys)"

fun json_dumps :: "json \<Rightarrow> string" where
  "json_dumps JNull = ''null''"
| "json_dumps (JInt i) = str_int i"
| "json_dumps (JStr s) = json_str s"
| "json_dumps (JArr xs) = ''['' @ join '', '' (map json_dumps xs) @ '']''"
| "json_dumps (JObj kvs) =
     ''{'' @ join '', '' (map (\<lambda>(k, v). json_str k @ '': '' @ json_dumps v) (sort_key fst kvs)) @ ''}''"

subsection \<open>The tables (\<^verbatim>\<open>backend/models\<close>)\<close>

text \<open>
  One record per table, one field per column that the indexer writes (the surrogate
  \<^verbatim>\<open>id\<close> columns are left out). Columns that only pass a JSON value through keep it as
  \<open>json\<close>. A field is prefixed with its table where two tables share a column name.
\<close>

datatype TxType =
    TRANSFER
  | STAKE
  | UNSTAKE
  | DELEGATE
  | UNDELEGATE
  | UPDATE_VALIDATOR
  | UNJAIL
  | COMPUTE
  | SUBMIT_RESULT

record block_row =
  blk_height :: int
  blk_hash :: string
  blk_prev_hash :: json
  blk_timestamp :: json
  blk_chain_id :: json
  blk_proposer_address :: json
  blk_tx_root :: json
  blk_state_root :: json
  blk_compute_root :: json
  blk_gas_used :: json
  blk_gas_limit :: json
  blk_tx_count :: nat
  blk_zk_state_proof_hash :: json
  blk_zk_compute_proof_hash :: json
  blk_pq_signature :: json
  blk_pq_sig_scheme_id :: json

record tx_row =
  tx_hash :: string
  tx_block_height :: int
  tx_type :: TxType
  tx_from_address :: json
  tx_to_address :: json
  tx_amount :: int
  tx_fee :: int
  tx_nonce :: json
  tx_gas_price :: json
  tx_gas_limit :: json
  tx_gas_used :: json
  tx_signature :: json
  tx_pub_key :: json
  tx_payload :: json
  tx_index :: nat

record account_row =
  acc_address :: json
  acc_balance :: int
  acc_nonce :: int
  acc_tx_count :: int
  acc_tx_sent_count :: int
  acc_tx_received_count :: int
  acc_first_seen_height :: "int option"
  acc_last_seen_height :: "int option"
  acc_first_seen_at :: "nat option"
  acc_last_seen_at :: "nat option"
  acc_is_validator :: bool
  acc_validator_info :: json
  acc_indexed_at :: nat
  acc_updated_at :: nat

text \<open>
  The persistent store. \<open>sync_status\<close> maps a key to its value; the column holds
  \<^verbatim>\<open>str(height)\<close> and the reader applies \<^verbatim>\<open>int\<close>, which the model composes to the
  identity.
\<close>

record store =
  blocks :: "block_row list"
  transactions :: "tx_row list"
  accounts :: "account_row list"
  sync_status :: "(string \<times> int) list"

text \<open>
  The events the properties below speak about: the boundaries of a store transaction
  and the calls to the node. The world is the store, the events so far and the one
  attribute of \<^verbatim>\<open>IndexerService\<close> that its methods update.
\<close>

datatype event =
    TxBegin
  | TxCommit
  | TxRollback
  | NetGetBlock int
  | NetGetHeight

record world =
  db :: store
  trace :: "event list"
  last_resync_time :: int

definition emit :: "event \<Rightarrow> world \<Rightarrow> world" where
  "emit ev w = w\<lparr>trace := trace w @ [ev]\<rparr>"

subsection \<open>The environment of one operation\<close>

text \<open>
  What the indexer takes from outside its own code during one operation:
  \<^item> \<open>sha256_hex s\<close> is \<^verbatim>\<open>hashlib.sha256(s.encode()).hexdigest()\<close>;
  \<^item> \<open>Decimal_str v\<close> is \<^verbatim>\<open>Decimal(str(v))\<close>, \<open>None\<close> when \<^verbatim>\<open>decimal.InvalidOperation\<close> is raised;
  \<^item> \<open>utcnow\<close> is \<^verbatim>\<open>datetime.utcnow()\<close>;
  \<^item> \<open>get_block h\<close> is the result of \<^verbatim>\<open>BlockchainClient.get_block(h)\<close>, which catches every
    exception itself and returns \<^verbatim>\<open>None\<close> (\<open>JNull\<close>) on a network error or a non-200 status;
  \<^item> \<open>get_block_height\<close> is the result of \<^verbatim>\<open>BlockchainClient.get_block_height()\<close>
    (0 when the node cannot be reached);
  \<^item> \<open>resync_depth\<close> and \<open>resync_interval\<close> are the settings of those names (10 and 300
    by default), \<open>loop_time\<close> the reading of the event loop's clock;
  \<^item> \<open>commit_fails s\<close> says that the database refuses to commit the session state \<open>s\<close> for a
    reason outside the constraints modelled below (a lost connection, a column type or
    length check).
\<close>

record env =
  sha256_hex :: "string \<Rightarrow> string"
  Decimal_str :: "json \<Rightarrow> int option"
  utcnow :: nat
  get_block :: "int \<Rightarrow> json"
  get_block_height :: int
  resync_depth :: int
  resync_interval :: int
  loop_time :: int
  commit_fails :: "store \<Rightarrow> bool"

subsection \<open>Chain hashing (\<^verbatim>\<open>client.py\<close>)\<close>

definition compute_block_hash :: "env \<Rightarrow> json \<Rightarrow> error + string" where
  "compute_block_hash E block =
     ebind (dict_get block ''header'' (JObj [])) (\<lambda>header.
     ebind (dict_get header ''height'' JNull) (\<lambda>height.
     ebind (dict_get header ''prev_hash'' JNull) (\<lambda>prev_hash.
     ebind (dict_get header ''timestamp'' JNull) (\<lambda>timestamp.
     ebind (dict_get header ''tx_root'' JNull) (\<lambda>tx_root.
     ebind (dict_get header ''state_root'' JNull) (\<lambda>state_root.
       Inr (sha256_hex E (json_dumps (JObj
         [(''height'', height),
          (''prev_hash'', prev_hash),
          (''timestamp'', timestamp),
          (''tx_root'', tx_root),
          (''state_root'', state_root)])))))))))"

definition compute_tx_hash :: "env \<Rightarrow> json \<Rightarrow> error + string" where
  "compute_tx_hash E tx =
     ebind (dict_get tx ''tx_type'' JNull) (\<lambda>tx_type.
     ebind (dict_get tx ''from_address'' JNull) (\<lambda>from_address.
     ebind (dict_get tx ''to_address'' JNull) (\<lambda>to_address.
     ebind (dict_get tx ''amount'' JNull) (\<lambda>amount.
     ebind (dict_get tx ''nonce'' JNull) (\<lambda>nonce.
     ebind (dict_get tx ''signature'' JNull) (\<lambda>signature.
       Inr (sha256_hex E (json_dumps (JObj
         [(''tx_type'', tx_type),
          (''from_address'', from_address),
          (''to_address'', to_address),
          (''amount'', amount),
          (''nonce'', nonce),
          (''signature'', signature)])))))))))"

text \<open>The keys read by the two functions, and \<^verbatim>\<open>block.get("header", {}).get(k)\<close>.\<close>

definition block_hash_fields :: "string list" where
  "block_hash_fields = [''height'', ''prev_hash'', ''timestamp'', ''tx_root'', ''state_root'']"

definition tx_hash_fields :: "string list" where
  "tx_hash_fields =
     [''tx_type'', ''from_address'', ''to_address'', ''amount'', ''nonce'', ''signature'']"

definition header_get :: "json \<Rightarrow> string \<Rightarrow> error + json" where
  "header_get block k = ebind (dict_get block ''header'' (JObj [])) (\<lambda>header. dict_get header k JNull)"

subsection \<open>Block Persister: building the rows (\<^verbatim>\<open>_index_blocks_batch\<close>, the loop)\<close>

text \<open>\<^verbatim>\<open>TxType(v)\<close>: the member with that value, ValueError when there is none.\<close>

definition TxType_of :: "json \<Rightarrow> error + TxType" where
  "TxType_of v =
     (if v = JStr ''TRANSFER'' then Inr TRANSFER
      else if v = JStr ''STAKE'' then Inr STAKE
      else if v = JStr ''UNSTAKE'' then Inr UNSTAKE
      else if v = JStr ''DELEGATE'' then Inr DELEGATE
      else if v = JStr ''UNDELEGATE'' then Inr UNDELEGATE
      else if v = JStr ''UPDATE_VALIDATOR'' then Inr UPDATE_VALIDATOR
      else if v = JStr ''UNJAIL'' then Inr UNJAIL
      else if v = JStr ''COMPUTE'' then Inr COMPUTE
      else if v = JStr ''SUBMIT_RESULT'' then Inr SUBMIT_RESULT
      else Inl ValueError)"

definition to_Decimal :: "env \<Rightarrow> json \<Rightarrow> error + int" where
  "to_Decimal E v = (case Decimal_str E v of None \<Rightarrow> Inl InvalidOperation | Some d \<Rightarrow> Inr d)"

text \<open>The \<^verbatim>\<open>Transaction(...)\<close> row of one source transaction; the keyword arguments are
  evaluated in the order written.\<close>

definition index_tx :: "env \<Rightarrow> int \<Rightarrow> nat \<Rightarrow> json \<Rightarrow> error + tx_row" where
  "index_tx E height idx tx_data =
     ebind (compute_tx_hash E tx_data) (\<lambda>h.
     ebind (dict_get tx_data ''tx_type'' (JStr ''TRANSFER'')) (\<lambda>ty.
     ebind (TxType_of ty) (\<lambda>ty'.
     ebind (dict_get tx_data ''from_address'' (JStr [])) (\<lambda>from_address.
     ebind (dict_get tx_data ''to_address'' JNull) (\<lambda>to_address.
     ebind (dict_get tx_data ''amount'' (JInt 0)) (\<lambda>amount.
     ebind (to_Decimal E amount) (\<lambda>amount'.
     ebind (dict_get tx_data ''fee'' (JInt 0)) (\<lambda>fee.
     ebind (to_Decimal E fee) (\<lambda>fee'.
     ebind (dict_get tx_data ''nonce'' (JInt 0)) (\<lambda>nonce.
     ebind (dict_get tx_data ''gas_price'' (JInt 0)) (\<lambda>gas_price.
     ebind (dict_get tx_data ''gas_limit'' (JInt 0)) (\<lambda>gas_limit.
     ebind (dict_get tx_data ''gas_limit'' (JInt 0)) (\<lambda>gas_used.
     ebind (dict_get tx_data ''signature'' (JStr [])) (\<lambda>signature.
     ebind (dict_get tx_data ''pub_key'' (JStr [])) (\<lambda>pub_key.
     ebind (dict_get tx_data ''payload'' (JObj [])) (\<lambda>payload.
       Inr \<lparr>tx_hash = h,
            tx_block_height = height,
            tx_type = ty',
            tx_from_address = from_address,
            tx_to_address = to_address,
            tx_amount = amount',
            tx_fee = fee',
            tx_nonce = nonce,
            tx_gas_price = gas_price,
            tx_gas_limit = gas_limit,
            tx_gas_used = gas_used,
            tx_signature = signature,
            tx_pub_key = pub_key,
            tx_payload = payload,
            tx_index = idx\<rparr>))))))))))))))))"

text \<open>What the loop carries: the objects given to \<^verbatim>\<open>session.add\<close> (pending until the
  flush), \<^verbatim>\<open>addresses_to_update\<close> and \<^verbatim>\<open>max_height\<close>.\<close>

record batch =
  new_blocks :: "block_row list"
  new_txs :: "tx_row list"
  addresses_to_update :: "json list"
  max_height :: int

text \<open>The two \<^verbatim>\<open>if tx_data.get(...): addresses_to_update.add(...)\<close> statements.\<close>

definition collect_addresses :: "json \<Rightarrow> json list \<Rightarrow> error + json list" where
  "collect_addresses tx_data addrs =
     ebind (dict_get tx_data ''from_address'' JNull) (\<lambda>from_address.
     ebind (if truthy from_address then set_add from_address addrs else Inr addrs) (\<lambda>addrs1.
     ebind (dict_get tx_data ''to_address'' JNull) (\<lambda>to_address.
       if truthy to_address then set_add to_address addrs1 else Inr addrs1)))"

text \<open>\<^verbatim>\<open>for idx, tx_data in enumerate(txs)\<close>.\<close>

fun index_txs :: "env \<Rightarrow> int \<Rightarrow> nat \<Rightarrow> json list \<Rightarrow> batch \<Rightarrow> error + batch" where
  "index_txs E height idx [] st = Inr st"
| "index_txs E height idx (tx_data # rest) st =
     ebind (index_tx E height idx tx_data) (\<lambda>tx.
     ebind (collect_addresses tx_data (addresses_to_update st)) (\<lambda>addrs.
       index_txs E height (Suc idx) rest
         (st\<lparr>new_txs := new_txs st @ [tx], addresses_to_update := addrs\<rparr>)))"

text \<open>The body of \<^verbatim>\<open>for block_data in blocks_data\<close>.\<close>

definition index_block :: "env \<Rightarrow> json \<Rightarrow> batch \<Rightarrow> error + batch" where
  "index_block E block_data st =
     ebind (dict_get block_data ''header'' (JObj [])) (\<lambda>header.
     ebind (dict_get block_data ''txs'' (JArr [])) (\<lambda>txs.
     ebind (dict_index header ''height'') (\<lambda>height_value.
     ebind (int_operand height_value) (\<lambda>height.
     ebind (compute_block_hash E block_data) (\<lambda>block_hash.
     ebind (dict_get header ''prev_hash'' (JStr [])) (\<lambda>prev_hash.
     ebind (dict_get header ''timestamp'' (JInt 0)) (\<lambda>timestamp.
     ebind (dict_get header ''chain_id'' (JStr [])) (\<lambda>chain_id.
     ebind (dict_get header ''proposer_address'' (JStr [])) (\<lambda>proposer_address.
     ebind (dict_get header ''tx_root'' (JStr [])) (\<lambda>tx_root.
     ebind (dict_get header ''state_root'' (JStr [])) (\<lambda>state_root.
     ebind (dict_get header ''compute_root'' JNull) (\<lambda>compute_root.
     ebind (dict_get header ''gas_used'' (JInt 0)) (\<lambda>gas_used.
     ebind (dict_get header ''gas_limit'' (JInt 0)) (\<lambda>gas_limit.
     ebind (py_len txs) (\<lambda>tx_count.
     ebind (dict_get header ''zk_state_proof_hash'' JNull) (\<lambda>zk_state_proof_hash.
     ebind (dict_get header ''zk_compute_proof_hash'' JNull) (\<lambda>zk_compute_proof_hash.
     ebind (dict_get block_data ''pq_signature'' JNull) (\<lambda>pq_signature.
     ebind (dict_get block_data ''pq_sig_scheme_id'' JNull) (\<lambda>pq_sig_scheme_id.
     ebind (py_iter txs) (\<lambda>tx_list.
       index_txs E height 0 tx_list
         (st\<lparr>max_height := max (max_height st) height,
             new_blocks := new_blocks st @
               [\<lparr>blk_height = height,
                 blk_hash = block_hash,
                 blk_prev_hash = prev_hash,
                 blk_timestamp = timestamp,
                 blk_chain_id = chain_id,
                 blk_proposer_address = proposer_address,
                 blk_tx_root = tx_root,
                 blk_state_root = state_root,
                 blk_compute_root = compute_root,
                 blk_gas_used = gas_used,
                 blk_gas_limit = gas_limit,
                 blk_tx_count = tx_count,
                 blk_zk_state_proof_hash = zk_state_proof_hash,
                 blk_zk_compute_proof_hash = zk_compute_proof_hash,
                 blk_pq_signature = pq_signature,
                 blk_pq_sig_scheme_id = pq_sig_scheme_id\<rparr>]\<rparr>)))))))))))))))))))))"

fun index_block_loop :: "env \<Rightarrow> json list \<Rightarrow> batch \<Rightarrow> error + batch" where
  "index_block_loop E [] st = Inr st"
| "index_block_loop E (block_data # rest) st =
     ebind (index_block E block_data st) (\<lambda>st'. index_block_loop E rest st')"

definition empty_batch :: batch where
  "empty_batch = \<lparr>new_blocks = [], new_txs = [], addresses_to_update = [], max_height = 0\<rparr>"

subsection \<open>The store's statements and constraints\<close>

text \<open>
  An INSERT is refused with an integrity error when it breaks a uniqueness constraint
  (\<^verbatim>\<open>blocks.height\<close>, \<^verbatim>\<open>blocks.hash\<close>, \<^verbatim>\<open>transactions.hash\<close>) or the foreign key from
  \<^verbatim>\<open>transactions.block_height\<close> to \<^verbatim>\<open>blocks.height\<close>.
\<close>

definition insert_block :: "block_row \<Rightarrow> store \<Rightarrow> error + store" where
  "insert_block r s =
     (if blk_height r \<in> set (map blk_height (blocks s)) \<or> blk_hash r \<in> set (map blk_hash (blocks s))
      then Inl IntegrityError
      else Inr (s\<lparr>blocks := blocks s @ [r]\<rparr>))"

definition insert_tx :: "tx_row \<Rightarrow> store \<Rightarrow> error + store" where
  "insert_tx r s =
     (if tx_hash r \<in> set (map tx_hash (transactions s))
         \<or> tx_block_height r \<notin> set (map blk_height (blocks s))
      then Inl IntegrityError
      else Inr (s\<lparr>transactions := transactions s @ [r]\<rparr>))"

fun efold :: "('a \<Rightarrow> 's \<Rightarrow> error + 's) \<Rightarrow> 'a list \<Rightarrow> 's \<Rightarrow> error + 's" where
  "efold f [] s = Inr s"
| "efold f (x # xs) s = ebind (f x s) (efold f xs)"

text \<open>The flush writes the pending objects: the unit of work inserts the rows of the
  parent table \<^verbatim>\<open>blocks\<close> before those of \<^verbatim>\<open>transactions\<close>, each in the order of
  \<^verbatim>\<open>session.add\<close>.\<close>

definition flush :: "batch \<Rightarrow> store \<Rightarrow> error + store" where
  "flush st s = ebind (efold insert_block (new_blocks st) s) (efold insert_tx (new_txs st))"

text \<open>\<^verbatim>\<open>_set_indexed_height\<close>: INSERT ... ON CONFLICT (key) DO UPDATE.\<close>

definition set_indexed_height :: "int \<Rightarrow> store \<Rightarrow> store" where
  "set_indexed_height height s =
     s\<lparr>sync_status := AList.update ''last_indexed_height'' height (sync_status s)\<rparr>"

text \<open>\<^verbatim>\<open>_update_accounts_batch\<close>: per address, INSERT ... ON CONFLICT (address) DO UPDATE of
  the three columns named in \<^verbatim>\<open>set_\<close>. The columns absent from \<^verbatim>\<open>values\<close> take their
  declared default, or NULL where none is declared.\<close>

definition upsert_account :: "env \<Rightarrow> int \<Rightarrow> json \<Rightarrow> store \<Rightarrow> store" where
  "upsert_account E height address s =
     (if address \<in> set (map acc_address (accounts s))
      then s\<lparr>accounts :=
              map (\<lambda>a. if acc_address a = address
                        then a\<lparr>acc_last_seen_height := Some height,
                               acc_last_seen_at := Some (utcnow E),
                               acc_updated_at := utcnow E\<rparr>
                        else a) (accounts s)\<rparr>
      else s\<lparr>accounts := accounts s @
              [\<lparr>acc_address = address,
                acc_balance = 0,
                acc_nonce = 0,
                acc_tx_count = 0,
                acc_tx_sent_count = 0,
                acc_tx_received_count = 0,
                acc_first_seen_height = None,
                acc_last_seen_height = Some height,
                acc_first_seen_at = None,
                acc_last_seen_at = Some (utcnow E),
                acc_is_validator = False,
                acc_validator_info = JNull,
                acc_indexed_at = utcnow E,
                acc_updated_at = utcnow E\<rparr>]\<rparr>)"

definition update_accounts_batch :: "env \<Rightarrow> json list \<Rightarrow> int \<Rightarrow> store \<Rightarrow> store" where
  "update_accounts_batch E addresses height s = fold (upsert_account E height) addresses s"

subsection \<open>Sessions (\<^verbatim>\<open>get_session_context\<close>)\<close>

text \<open>
  The body runs on the session's view of the store. If it raises, or the commit fails,
  the session is rolled back (the store is the one from before) and the exception is
  raised again. In every use below the body's first action is a statement, so the
  transaction is open from the start of the body to the commit or rollback.
\<close>

definition get_session_context ::
    "env \<Rightarrow> (world \<Rightarrow> world \<times> (error + 'a)) \<Rightarrow> world \<Rightarrow> world \<times> (error + 'a)" where
  "get_session_context E body w =
     (case body (emit TxBegin w) of
        (w', Inl e) \<Rightarrow> (emit TxRollback (w'\<lparr>db := db w\<rparr>), Inl e)
      | (w', Inr r) \<Rightarrow>
          if commit_fails E (db w') then (emit TxRollback (w'\<lparr>db := db w\<rparr>), Inl OperationalError)
          else (emit TxCommit w', Inr r))"

text \<open>A body made of store statements only.\<close>

definition statements :: "(store \<Rightarrow> error + store) \<Rightarrow> world \<Rightarrow> world \<times> (error + unit)" where
  "statements f w = (case f (db w) of Inl e \<Rightarrow> (w, Inl e) | Inr s \<Rightarrow> (w\<lparr>db := s\<rparr>, Inr ()))"

text \<open>Sequencing of operations on the world: an exception ends the sequence.\<close>

definition wbind ::
    "world \<times> (error + 'a) \<Rightarrow> ('a \<Rightarrow> world \<Rightarrow> world \<times> (error + 'b)) \<Rightarrow> world \<times> (error + 'b)" where
  "wbind m f = (case m of (w, Inl e) \<Rightarrow> (w, Inl e) | (w, Inr x) \<Rightarrow> f x w)"

subsection \<open>Block Persister (\<^verbatim>\<open>_index_blocks_batch\<close>)\<close>

definition index_blocks_session :: "env \<Rightarrow> json list \<Rightarrow> store \<Rightarrow> error + store" where
  "index_blocks_session E blocks_data s =
     ebind (index_block_loop E blocks_data empty_batch) (\<lambda>st.
     ebind (flush st (set_indexed_height (max_height st) s)) (\<lambda>s'.
       Inr (if addresses_to_update st \<noteq> []
            then update_accounts_batch E (addresses_to_update st) (max_height st) s'
            else s')))"

definition index_blocks_batch :: "env \<Rightarrow> json list \<Rightarrow> world \<Rightarrow> world \<times> (error + unit)" where
  "index_blocks_batch E blocks_data w =
     (if blocks_data = [] then (w, Inr ())
      else get_session_context E (statements (index_blocks_session E blocks_data)) w)"

subsection \<open>Watermark (\<^verbatim>\<open>_get_indexed_height\<close>)\<close>

definition indexed_height_of :: "store \<Rightarrow> int" where
  "indexed_height_of s =
     (case map_of (sync_status s) ''last_indexed_height'' of None \<Rightarrow> 0 | Some v \<Rightarrow> v)"

definition get_indexed_height :: "env \<Rightarrow> world \<Rightarrow> world \<times> (error + int)" where
  "get_indexed_height E w =
     get_session_context E (\<lambda>w'. (w', Inr (indexed_height_of (db w')))) w"

subsection \<open>Batch Fetcher and the catch-up loop (\<^verbatim>\<open>_sync_blocks_batch\<close>)\<close>

definition BATCH_SIZE :: int where
  "BATCH_SIZE = 50"

text \<open>The tasks of one sub-batch and their gathered results, in task order.\<close>

definition fetch_blocks :: "env \<Rightarrow> int \<Rightarrow> int \<Rightarrow> world \<Rightarrow> world \<times> json list" where
  "fetch_blocks E batch_start batch_end w =
     (w\<lparr>trace := trace w @ map NetGetBlock [batch_start..batch_end]\<rparr>,
      map (get_block E) [batch_start..batch_end])"

text \<open>The filter loop over \<^verbatim>\<open>blocks_data\<close>. No result is an exception object, because
  \<^verbatim>\<open>get_block\<close> catches every exception itself; a \<^verbatim>\<open>None\<close> is logged and dropped.\<close>

fun filter_valid :: "json list \<Rightarrow> json list \<Rightarrow> json list" where
  "filter_valid [] valid_blocks = valid_blocks"
| "filter_valid (block_data # rest) valid_blocks =
     (if block_data = JNull then filter_valid rest valid_blocks
      else filter_valid rest (valid_blocks @ [block_data]))"

text \<open>\<^verbatim>\<open>for batch_start in range(start_height, end_height + 1, BATCH_SIZE)\<close>, from the
  iteration at \<open>batch_start\<close> on.\<close>

function sync_batches :: "env \<Rightarrow> int \<Rightarrow> int \<Rightarrow> world \<Rightarrow> world \<times> (error + unit)" where
  "sync_batches E batch_start end_height w =
     (if end_height < batch_start then (w, Inr ())
      else
        let batch_end = min (batch_start + BATCH_SIZE - 1) end_height;
            (w1, blocks_data) = fetch_blocks E batch_start batch_end w;
            valid_blocks = filter_valid blocks_data []
        in if valid_blocks = [] then (w1, Inr ())
           else wbind (index_blocks_batch E valid_blocks w1)
                  (\<lambda>_. sync_batches E (batch_start + BATCH_SIZE) end_height))"
  by pat_completeness auto
termination
  by (relation "measure (\<lambda>(E, batch_start, end_height, w). nat (end_height + 1 - batch_start))")
     (auto simp: BATCH_SIZE_def)

declare sync_batches.simps [simp del]

definition sync_blocks_batch :: "env \<Rightarrow> int \<Rightarrow> int \<Rightarrow> world \<Rightarrow> world \<times> (error + unit)" where
  "sync_blocks_batch E start_height end_height w = sync_batches E start_height end_height w"

subsection \<open>Reorg Handler (\<^verbatim>\<open>_handle_reorg\<close>)\<close>

text \<open>The statements of the rewind session: the two DELETEs, then the watermark.\<close>

definition rewind_session :: "int \<Rightarrow> store \<Rightarrow> error + store" where
  "rewind_session from_height s =
     (let s1 = s\<lparr>transactions := filter (\<lambda>t. \<not> from_height \<le> tx_block_height t) (transactions s)\<rparr>;
          s2 = s1\<lparr>blocks := filter (\<lambda>b. \<not> from_height \<le> blk_height b) (blocks s1)\<rparr>
      in Inr (set_indexed_height (from_height - 1) s2))"

definition handle_reorg :: "env \<Rightarrow> int \<Rightarrow> world \<Rightarrow> world \<times> (error + unit)" where
  "handle_reorg E from_height w =
     wbind (get_session_context E (statements (rewind_session from_height)) w) (\<lambda>_ w1.
       let w2 = emit NetGetHeight w1;
           chain_height = get_block_height E
       in if from_height \<le> chain_height then sync_blocks_batch E from_height chain_height w2
          else (w2, Inr ()))"

subsection \<open>Reorg Detector (\<^verbatim>\<open>_check_reorg\<close>)\<close>

text \<open>The loop inside the session, over the heights still to probe. It yields the value
  of \<^verbatim>\<open>reorg_height\<close> when the loop is left.\<close>

fun reorg_scan :: "env \<Rightarrow> int list \<Rightarrow> world \<Rightarrow> world \<times> (error + int option)" where
  "reorg_scan E [] w = (w, Inr None)"
| "reorg_scan E (height # rest) w =
     (case find (\<lambda>b. blk_height b = height) (blocks (db w)) of
        None \<Rightarrow> reorg_scan E rest w
      | Some indexed_block \<Rightarrow>
          (let w1 = emit (NetGetBlock height) w;
               chain_block = get_block E height
           in if \<not> truthy chain_block then reorg_scan E rest w1
              else case compute_block_hash E chain_block of
                     Inl e \<Rightarrow> (w1, Inl e)
                   | Inr chain_hash \<Rightarrow>
                       if blk_hash indexed_block \<noteq> chain_hash then (w1, Inr (Some height))
                       else reorg_scan E rest w1))"

text \<open>\<^verbatim>\<open>_check_reorg\<close> up to the point where \<^verbatim>\<open>reorg_height\<close> is known; the heights are
  \<^verbatim>\<open>range(indexed_height, check_from - 1, -1)\<close>.\<close>

definition detect_reorg :: "env \<Rightarrow> world \<Rightarrow> world \<times> (error + int option)" where
  "detect_reorg E w =
     wbind (get_indexed_height E w) (\<lambda>indexed_height w1.
       if indexed_height = 0 then (w1, Inr None)
       else
         let check_from = max 1 (indexed_height - resync_depth E)
         in get_session_context E (reorg_scan E (rev [check_from..indexed_height])) w1)"

definition check_reorg :: "env \<Rightarrow> world \<Rightarrow> world \<times> (error + unit)" where
  "check_reorg E w =
     wbind (detect_reorg E w) (\<lambda>reorg_height w1.
       case reorg_height of
         None \<Rightarrow> (w1, Inr ())
       | Some h \<Rightarrow> if h \<noteq> 0 then handle_reorg E h w1 else (w1, Inr ()))"

subsection \<open>Sync Coordinator (\<^verbatim>\<open>_sync_loop\<close> and one turn of \<^verbatim>\<open>start\<close>)\<close>

definition sync_loop :: "env \<Rightarrow> world \<Rightarrow> world \<times> (error + unit)" where
  "sync_loop E w =
     wbind (get_indexed_height E w) (\<lambda>indexed_height w1.
       let w2 = emit NetGetHeight w1;
           chain_height = get_block_height E
       in if chain_height = 0 then (w2, Inr ())
          else
            wbind (if indexed_height < chain_height
                   then sync_blocks_batch E (indexed_height + 1) chain_height w2
                   else (w2, Inr ())) (\<lambda>_ w3.
              if resync_interval E < loop_time E - last_resync_time w3
              then wbind (check_reorg E w3) (\<lambda>_ w4. (w4\<lparr>last_resync_time := loop_time E\<rparr>, Inr ()))
              else (w3, Inr ())))"

text \<open>One turn of the \<^verbatim>\<open>while self.running\<close> loop: the \<^verbatim>\<open>except Exception\<close> clause logs the
  exception of the cycle (returned here) and the loop goes on.\<close>

definition start_turn :: "env \<Rightarrow> world \<Rightarrow> world \<times> error option" where
  "start_turn E w =
     (case sync_loop E w of
        (w', Inl e) \<Rightarrow> (w', Some e)
      | (w', Inr _) \<Rightarrow> (w', None))"

subsection \<open>Reading a raw block\<close>

text \<open>The height the persister reads from a raw block (\<^verbatim>\<open>header["height"]\<close>, an int), and
  the transactions its inner loop goes through.\<close>

definition block_height_of :: "json \<Rightarrow> error + int" where
  "block_height_of block_data =
     ebind (dict_get block_data ''header'' (JObj [])) (\<lambda>header.
     ebind (dict_index header ''height'') int_operand)"

definition source_txs :: "json \<Rightarrow> json list" where
  "source_txs block_data =
     (case ebind (dict_get block_data ''txs'' (JArr [])) py_iter of
        Inl e \<Rightarrow> []
      | Inr tx_list \<Rightarrow> tx_list)"

subsection \<open>Example data\<close>

text \<open>
  A raw block and a raw transaction as the node serves them, an empty world, and an
  environment for the worked examples. In the examples the identity stands in for the
  digest (it is injective, which is all the examples use of SHA-256), and amounts are
  integers, on which \<^verbatim>\<open>Decimal(str(v))\<close> is \<open>v\<close>.
\<close>

definition example_tx :: "string \<Rightarrow> string \<Rightarrow> int \<Rightarrow> int \<Rightarrow> int \<Rightarrow> json" where
  "example_tx sender receiver nonce gas_limit gas_used =
     JObj [(''tx_type'', JStr ''TRANSFER''),
           (''from_address'', JStr sender),
           (''to_address'', JStr receiver),
           (''amount'', JInt 100),
           (''fee'', JInt 1),
           (''nonce'', JInt nonce),
           (''gas_limit'', JInt gas_limit),
           (''gas_used'', JInt gas_used),
           (''signature'', JStr ''sig'')]"

definition example_block :: "int \<Rightarrow> string \<Rightarrow> int \<Rightarrow> json list \<Rightarrow> json" where
  "example_block h state_root gas_used txs =
     JObj [(''header'',
            JObj [(''height'', JInt h),
                  (''prev_hash'', JStr ''prev''),
                  (''timestamp'', JInt (1000 + h)),
                  (''tx_root'', JStr ''txroot''),
                  (''state_root'', JStr state_root),
                  (''gas_used'', JInt gas_used)]),
           (''txs'', JArr txs)]"

definition example_Decimal :: "json \<Rightarrow> int option" where
  "example_Decimal v = (case v of JInt i \<Rightarrow> Some i | _ \<Rightarrow> None)"

definition example_env :: "(int \<Rightarrow> json) \<Rightarrow> int \<Rightarrow> env" where
  "example_env node height =
     \<lparr>sha256_hex = (\<lambda>s. s),
      Decimal_str = example_Decimal,
      utcnow = 1000,
      get_block = node,
      get_block_height = height,
      resync_depth = 10,
      resync_interval = 300,
      loop_time = 0,
      commit_fails = (\<lambda>s. False)\<rparr>"

definition empty_world :: world where
  "empty_world =
     \<lparr>db = \<lparr>blocks = [], transactions = [], accounts = [], sync_status = []\<rparr>,
      trace = [],
      last_resync_time = 0\<rparr>"

text \<open>One block with one transaction whose \<^verbatim>\<open>gas_limit\<close> is 21000 and \<^verbatim>\<open>gas_used\<close> is 7,
  and the world after persisting it into the empty store.\<close>

definition example_batch :: "json list" where
  "example_batch = [example_block 1 ''root'' 0 [example_tx ''alice'' ''bob'' 1 21000 7]]"

definition example_batch_world :: world where
  "example_batch_world = fst (index_blocks_batch (example_env (\<lambda>h. JNull) 0) example_batch empty_world)"

text \<open>
  A chain of ten blocks (one transaction each) as the node serves it, the same chain
  after a reorganisation that replaced the blocks from height 7 upward, and the world
  after one catch-up over the first chain from the empty store.
\<close>

definition example_chain :: "int \<Rightarrow> json" where
  "example_chain h =
     (if 1 \<le> h \<and> h \<le> 10
      then example_block h ''old'' 0 [example_tx ''alice'' ''bob'' h 21000 7]
      else JNull)"

definition reorged_chain :: "int \<Rightarrow> json" where
  "reorged_chain h =
     (if 7 \<le> h \<and> h \<le> 10
      then example_block h ''new'' 0 [example_tx ''carol'' ''bob'' h 21000 7]
      else example_chain h)"

definition example_chain_world :: world where
  "example_chain_world = fst (sync_blocks_batch (example_env example_chain 10) 1 10 empty_world)"


subsection \<open>Notions used in the statements\<close>

text \<open>
  \<open>watermark_covers s\<close>: the watermark is not negative and no stored block lies above it.
  \<open>answers_own_height E h\<close>: if the node's answer to a request for height \<open>h\<close> has a
  readable height at all, that height is \<open>h\<close>. \<open>serves_or_fails E h\<close>: the node's answer for
  \<open>h\<close> is either nothing or a block whose header carries the height \<open>h\<close>.
\<close>

definition watermark_covers :: "store \<Rightarrow> bool" where
  "watermark_covers s \<longleftrightarrow>
     0 \<le> indexed_height_of s \<and> list_all (\<lambda>b. blk_height b \<le> indexed_height_of s) (blocks s)"

definition answers_own_height :: "env \<Rightarrow> int \<Rightarrow> bool" where
  "answers_own_height E h \<longleftrightarrow>
     (case block_height_of (get_block E h) of Inl e \<Rightarrow> True | Inr h' \<Rightarrow> h' = h)"

definition serves_or_fails :: "env \<Rightarrow> int \<Rightarrow> bool" where
  "serves_or_fails E h \<longleftrightarrow> get_block E h = JNull \<or> block_height_of (get_block E h) = Inr h"

text \<open>
  A node that serves heights 1, 2, 51 and 52 only, and the worlds after the catch-up over
  1..50 (one sub-batch) and over 1..52 (two sub-batches) from the empty store. Then two
  hand-made sequences of persists: a block of height 5 followed by a block of height 3,
  and a single block of height -3.
\<close>

definition sparse_chain :: "int \<Rightarrow> json" where
  "sparse_chain h =
     (if h = 1 \<or> h = 2 \<or> h = 51 \<or> h = 52
      then example_block h ''old'' 0 [example_tx ''alice'' ''bob'' h 21000 7]
      else JNull)"

definition sparse_world_first :: world where
  "sparse_world_first = fst (sync_blocks_batch (example_env sparse_chain 52) 1 50 empty_world)"

definition sparse_world :: world where
  "sparse_world = fst (sync_blocks_batch (example_env sparse_chain 52) 1 52 empty_world)"

definition late_block_world :: world where
  "late_block_world =
     fst (index_blocks_batch (example_env (\<lambda>h. JNull) 0) [example_block 3 ''old'' 0 []]
       (fst (index_blocks_batch (example_env (\<lambda>h. JNull) 0) [example_block 5 ''old'' 0 []]
          empty_world)))"

definition negative_block_world :: world where
  "negative_block_world =
     fst (index_blocks_batch (example_env (\<lambda>h. JNull) 0) [example_block (- 3) ''old'' 0 []] empty_world)"




definition world_summary :: "world \<Rightarrow> (int \<times> json) list \<times> int list \<times> int" where
  "world_summary w =
     (map (\<lambda>b. (blk_height b, blk_state_root b)) (blocks (db w)),
      map tx_block_height (transactions (db w)),
      indexed_height_of (db w))"


subsection \<open>Notions for the Reorg Detector\<close>

text \<open>The row that \<^verbatim>\<open>select(Block).where(Block.height == height)\<close> returns, and the two
  outcomes of one step of the scan of \<^verbatim>\<open>_check_reorg\<close> that do not raise: the step goes on to
  the next lower height (no stored row, no block from the node, or equal hashes), or it stops
  there (a stored row, a block from the node, and different hashes).\<close>

definition stored_block :: "store \<Rightarrow> int \<Rightarrow> block_row option" where
  "stored_block s h = find (\<lambda>b. blk_height b = h) (blocks s)"

definition hash_mismatch :: "env \<Rightarrow> store \<Rightarrow> int \<Rightarrow> bool" where
  "hash_mismatch E s h \<longleftrightarrow>
     (case stored_block s h of
        None \<Rightarrow> False
      | Some indexed_block \<Rightarrow>
          truthy (get_block E h) \<and>
          (case compute_block_hash E (get_block E h) of
             Inl e \<Rightarrow> False
           | Inr chain_hash \<Rightarrow> blk_hash indexed_block \<noteq> chain_hash))"

definition probe_passes :: "env \<Rightarrow> store \<Rightarrow> int \<Rightarrow> bool" where
  "probe_passes E s h \<longleftrightarrow>
     (case stored_block s h of
        None \<Rightarrow> True
      | Some indexed_block \<Rightarrow>
          \<not> truthy (get_block E h) \<or>
          compute_block_hash E (get_block E h) = Inr (blk_hash indexed_block))"

definition probe_view :: "env \<Rightarrow> store \<Rightarrow> int list \<Rightarrow> (int \<times> bool \<times> bool) list" where
  "probe_view E s hs = map (\<lambda>h. (h, probe_passes E s h, hash_mismatch E s h)) hs"

text \<open>A node that has the reorganised chain but does not answer for the heights 9 and 10.\<close>

definition half_reachable_chain :: "int \<Rightarrow> json" where
  "half_reachable_chain h = (if 9 \<le> h then JNull else reorged_chain h)"

section \<open>Properties\<close>

subsection \<open>Evaluating the model on concrete data\<close>

text \<open>
  Equations that make the worked examples cheap to evaluate: the printable range as a
  test on the bits of the character, and the serialised payload of the two hash
  functions with its keys already sorted and quoted.
\<close>

lemma printable_code [code]:
  "printable c \<longleftrightarrow> \<not> digit7 c \<and> (digit5 c \<or> digit6 c) \<and> c \<noteq> CHR 0x7F"
  by (cases c) (simp add: printable_def)

lemma block_payload_dumps:
  \<open>json_dumps (JObj
         [(''height'', height),
          (''prev_hash'', prev_hash),
          (''timestamp'', timestamp),
          (''tx_root'', tx_root),
          (''state_root'', state_root)]) =
     ''{"height": '' @ json_dumps height @
     '', "prev_hash": '' @ json_dumps prev_hash @
     '', "state_root": '' @ json_dumps state_root @
     '', "timestamp": '' @ json_dumps timestamp @
     '', "tx_root": '' @ json_dumps tx_root @ ''}''\<close>
  by (simp add: json_str_def escape_char_def printable_def)

lemma tx_payload_dumps:
  \<open>json_dumps (JObj
         [(''tx_type'', ty),
          (''from_address'', sender),
          (''to_address'', receiver),
          (''amount'', amount),
          (''nonce'', nonce),
          (''signature'', signature)]) =
     ''{"amount": '' @ json_dumps amount @
     '', "from_address": '' @ json_dumps sender @
     '', "nonce": '' @ json_dumps nonce @
     '', "signature": '' @ json_dumps signature @
     '', "to_address": '' @ json_dumps receiver @
     '', "tx_type": '' @ json_dumps ty @ ''}''\<close>
  by (simp add: json_str_def escape_char_def printable_def)

lemmas compute_block_hash_code [code] = compute_block_hash_def [unfolded block_payload_dumps]

lemmas compute_tx_hash_code [code] = compute_tx_hash_def [unfolded tx_payload_dumps]

subsection \<open>Basic facts about the building blocks\<close>

lemma ebind_simps [simp]:
  "ebind (Inl e) f = Inl e"
  "ebind (Inr x) f = f x"
  by (simp_all add: ebind_def)

lemma ebind_eq_Inr: "ebind m f = Inr y \<longleftrightarrow> (\<exists>x. m = Inr x \<and> f x = Inr y)"
  by (cases m) simp_all

lemma block_hash_agree:
  assumes "\<forall>k\<in>set block_hash_fields. header_get b1 k = header_get b2 k"
  shows "compute_block_hash E b1 = compute_block_hash E b2"
proof -
  have a: "header_get b1 ''height'' = header_get b2 ''height''"
    "header_get b1 ''prev_hash'' = header_get b2 ''prev_hash''"
    "header_get b1 ''timestamp'' = header_get b2 ''timestamp''"
    "header_get b1 ''tx_root'' = header_get b2 ''tx_root''"
    "header_get b1 ''state_root'' = header_get b2 ''state_root''"
    using assms by (simp_all add: block_hash_fields_def)
  have shape: "compute_block_hash E b =
     ebind (header_get b ''height'') (\<lambda>height.
     ebind (header_get b ''prev_hash'') (\<lambda>prev_hash.
     ebind (header_get b ''timestamp'') (\<lambda>timestamp.
     ebind (header_get b ''tx_root'') (\<lambda>tx_root.
     ebind (header_get b ''state_root'') (\<lambda>state_root.
       Inr (sha256_hex E (json_dumps (JObj
         [(''height'', height),
          (''prev_hash'', prev_hash),
          (''timestamp'', timestamp),
          (''tx_root'', tx_root),
          (''state_root'', state_root)]))))))))" for b
  proof (cases "dict_get b ''header'' (JObj [])")
    case (Inl e)
    then show ?thesis by (simp add: compute_block_hash_def header_get_def)
  next
    case (Inr header)
    then show ?thesis
      by (simp add: compute_block_hash_def header_get_def)
  qed
  show ?thesis unfolding shape a ..
qed

lemma tx_hash_agree:
  assumes "\<forall>k\<in>set tx_hash_fields. dict_get t1 k JNull = dict_get t2 k JNull"
  shows "compute_tx_hash E t1 = compute_tx_hash E t2"
  using assms by (simp add: compute_tx_hash_def tx_hash_fields_def)

lemma index_tx_gas:
  assumes "index_tx E height idx tx_data = Inr row"
  shows "dict_get tx_data ''gas_limit'' (JInt 0) = Inr (tx_gas_used row)"
  using assms unfolding index_tx_def
  by (auto simp: ebind_eq_Inr)

lemma index_tx_height:
  assumes "index_tx E height idx tx_data = Inr row"
  shows "tx_block_height row = height"
  using assms unfolding index_tx_def
  by (auto simp: ebind_eq_Inr)

lemma index_txs_result:
  assumes "index_txs E h i txl st = Inr st'"
  shows "new_blocks st' = new_blocks st \<and> max_height st' = max_height st \<and>
         (\<exists>rows. new_txs st' = new_txs st @ rows \<and>
            (\<forall>r\<in>set rows. \<exists>tx\<in>set txl. \<exists>j. index_tx E h j tx = Inr r))"
  using assms
proof (induction txl arbitrary: i st)
  case Nil
  then show ?case by simp
next
  case (Cons tx rest)
  from Cons.prems obtain r addrs where
    r: "index_tx E h i tx = Inr r" and
    rec: "index_txs E h (Suc i) rest (st\<lparr>new_txs := new_txs st @ [r], addresses_to_update := addrs\<rparr>) = Inr st'"
    by (auto simp: ebind_eq_Inr)
  from Cons.IH[OF rec] obtain rows where
    a: "new_blocks st' = new_blocks st" "max_height st' = max_height st"
       "new_txs st' = (new_txs st @ [r]) @ rows"
       "\<forall>r\<in>set rows. \<exists>tx\<in>set rest. \<exists>j. index_tx E h j tx = Inr r"
    by auto
  have "new_txs st' = new_txs st @ (r # rows)" using a(3) by simp
  moreover have "\<forall>r'\<in>set (r # rows). \<exists>tx'\<in>set (tx # rest). \<exists>j. index_tx E h j tx' = Inr r'"
    using a(4) r by auto
  ultimately show ?case using a(1,2) by blast
qed

lemma index_block_result:
  assumes "index_block E b st = Inr st'"
  shows "\<exists>blk rows. block_height_of b = Inr (blk_height blk) \<and>
           compute_block_hash E b = Inr (blk_hash blk) \<and>
           new_blocks st' = new_blocks st @ [blk] \<and>
           max_height st' = max (max_height st) (blk_height blk) \<and>
           new_txs st' = new_txs st @ rows \<and>
           (\<forall>r\<in>set rows. \<exists>tx\<in>set (source_txs b). \<exists>j. index_tx E (blk_height blk) j tx = Inr r)"
  using assms unfolding index_block_def block_height_of_def source_txs_def
  apply (clarsimp simp: ebind_eq_Inr)
  apply (drule index_txs_result)
  apply clarsimp
  apply blast
  done

lemma Max_insert_max:
  "finite S \<Longrightarrow> Max (insert (max (m::int) h) S) = Max (insert m (insert h S))"
  by (metis Max_insert Max_singleton finite.insertI insert_not_empty max.assoc max.commute)

lemma index_block_loop_result:
  assumes "index_block_loop E bs st = Inr st'"
  shows "\<exists>blks rows. new_blocks st' = new_blocks st @ blks \<and>
           list_all2 (\<lambda>b blk. block_height_of b = Inr (blk_height blk) \<and>
                              compute_block_hash E b = Inr (blk_hash blk)) bs blks \<and>
           max_height st' = Max (insert (max_height st) (blk_height ` set blks)) \<and>
           new_txs st' = new_txs st @ rows \<and>
           (\<forall>r\<in>set rows. tx_block_height r \<in> blk_height ` set blks \<and>
              (\<exists>b\<in>set bs. \<exists>tx\<in>set (source_txs b). \<exists>h j. index_tx E h j tx = Inr r))"
  using assms
proof (induction bs arbitrary: st)
  case Nil
  then show ?case by simp
next
  case (Cons b rest)
  from Cons.prems obtain st1 where
    b: "index_block E b st = Inr st1" and rec: "index_block_loop E rest st1 = Inr st'"
    by (auto simp: ebind_eq_Inr)
  from index_block_result[OF b] obtain blk rows1 where
    h1: "block_height_of b = Inr (blk_height blk)"
        "compute_block_hash E b = Inr (blk_hash blk)"
        "new_blocks st1 = new_blocks st @ [blk]"
        "max_height st1 = max (max_height st) (blk_height blk)"
        "new_txs st1 = new_txs st @ rows1"
        "\<forall>r\<in>set rows1. \<exists>tx\<in>set (source_txs b). \<exists>j. index_tx E (blk_height blk) j tx = Inr r"
    by blast
  from Cons.IH[OF rec] obtain blks rows2 where
    h2: "new_blocks st' = new_blocks st1 @ blks"
        "list_all2 (\<lambda>b blk. block_height_of b = Inr (blk_height blk) \<and>
                              compute_block_hash E b = Inr (blk_hash blk)) rest blks"
        "max_height st' = Max (insert (max_height st1) (blk_height ` set blks))"
        "new_txs st' = new_txs st1 @ rows2"
        "\<forall>r\<in>set rows2. tx_block_height r \<in> blk_height ` set blks \<and>
              (\<exists>b\<in>set rest. \<exists>tx\<in>set (source_txs b). \<exists>h j. index_tx E h j tx = Inr r)"
    by blast
  have c1: "new_blocks st' = new_blocks st @ (blk # blks)"
    using h1(3) h2(1) by simp
  have c2: "list_all2 (\<lambda>b blk. block_height_of b = Inr (blk_height blk) \<and>
                              compute_block_hash E b = Inr (blk_hash blk)) (b # rest) (blk # blks)"
    using h1(1,2) h2(2) by simp
  have c3: "max_height st' = Max (insert (max_height st) (blk_height ` set (blk # blks)))"
    using h2(3) h1(4) by (simp add: Max_insert_max)
  have c4: "new_txs st' = new_txs st @ (rows1 @ rows2)"
    using h1(5) h2(4) by simp
  have c5: "\<forall>r\<in>set (rows1 @ rows2). tx_block_height r \<in> blk_height ` set (blk # blks) \<and>
              (\<exists>b'\<in>set (b # rest). \<exists>tx\<in>set (source_txs b'). \<exists>h j. index_tx E h j tx = Inr r)"
  proof
    fix r assume "r \<in> set (rows1 @ rows2)"
    then consider "r \<in> set rows1" | "r \<in> set rows2" by auto
    then show "tx_block_height r \<in> blk_height ` set (blk # blks) \<and>
              (\<exists>b'\<in>set (b # rest). \<exists>tx\<in>set (source_txs b'). \<exists>h j. index_tx E h j tx = Inr r)"
    proof cases
      case 1
      with h1(6) obtain tx j where t: "tx \<in> set (source_txs b)" "index_tx E (blk_height blk) j tx = Inr r"
        by blast
      from index_tx_height[OF t(2)] t show ?thesis by auto
    next
      case 2
      with h2(5) show ?thesis by auto
    qed
  qed
  from c1 c2 c3 c4 c5 show ?case by blast
qed

lemma efold_insert_block:
  assumes "efold insert_block rs s = Inr s'"
  shows "blocks s' = blocks s @ rs \<and> transactions s' = transactions s \<and>
         accounts s' = accounts s \<and> sync_status s' = sync_status s"
  using assms
proof (induction rs arbitrary: s)
  case Nil
  then show ?case by simp
next
  case (Cons r rs)
  from Cons.prems obtain s1 where a: "insert_block r s = Inr s1" and b: "efold insert_block rs s1 = Inr s'"
    by (auto simp: ebind_eq_Inr)
  from a have "s1 = s\<lparr>blocks := blocks s @ [r]\<rparr>"
    by (auto simp: insert_block_def split: if_splits)
  with Cons.IH[OF b] show ?case by simp
qed

lemma efold_insert_tx:
  assumes "efold insert_tx rs s = Inr s'"
  shows "transactions s' = transactions s @ rs \<and> blocks s' = blocks s \<and>
         accounts s' = accounts s \<and> sync_status s' = sync_status s"
  using assms
proof (induction rs arbitrary: s)
  case Nil
  then show ?case by simp
next
  case (Cons r rs)
  from Cons.prems obtain s1 where a: "insert_tx r s = Inr s1" and b: "efold insert_tx rs s1 = Inr s'"
    by (auto simp: ebind_eq_Inr)
  from a have "s1 = s\<lparr>transactions := transactions s @ [r]\<rparr>"
    by (auto simp: insert_tx_def split: if_splits)
  with Cons.IH[OF b] show ?case by simp
qed

lemma flush_result:
  assumes "flush st s = Inr s'"
  shows "blocks s' = blocks s @ new_blocks st \<and> transactions s' = transactions s @ new_txs st \<and>
         accounts s' = accounts s \<and> sync_status s' = sync_status s"
proof -
  from assms obtain s1 where a: "efold insert_block (new_blocks st) s = Inr s1"
    and b: "efold insert_tx (new_txs st) s1 = Inr s'"
    by (auto simp: flush_def ebind_eq_Inr)
  from efold_insert_block[OF a] efold_insert_tx[OF b] show ?thesis by simp
qed

lemma session_statements:
  "get_session_context E (statements f) w =
     (case f (db w) of
        Inl e \<Rightarrow> (w\<lparr>trace := trace w @ [TxBegin, TxRollback]\<rparr>, Inl e)
      | Inr s \<Rightarrow>
          if commit_fails E s then (w\<lparr>trace := trace w @ [TxBegin, TxRollback]\<rparr>, Inl OperationalError)
          else (w\<lparr>db := s, trace := trace w @ [TxBegin, TxCommit]\<rparr>, Inr ()))"
  by (cases "f (db w)") (simp_all add: get_session_context_def statements_def emit_def)

lemma indexed_height_set [simp]:
  "indexed_height_of (set_indexed_height h s) = h"
  by (simp add: indexed_height_of_def set_indexed_height_def update_conv')

lemma set_indexed_height_fields [simp]:
  "blocks (set_indexed_height h s) = blocks s"
  "transactions (set_indexed_height h s) = transactions s"
  "accounts (set_indexed_height h s) = accounts s"
  by (simp_all add: set_indexed_height_def)

lemma upsert_account_fields [simp]:
  "blocks (upsert_account E h a s) = blocks s"
  "transactions (upsert_account E h a s) = transactions s"
  "sync_status (upsert_account E h a s) = sync_status s"
  by (simp_all add: upsert_account_def)

lemma update_accounts_batch_fields [simp]:
  "blocks (update_accounts_batch E as h s) = blocks s"
  "transactions (update_accounts_batch E as h s) = transactions s"
  "sync_status (update_accounts_batch E as h s) = sync_status s"
  unfolding update_accounts_batch_def
  by (induction as arbitrary: s) simp_all

lemma indexed_height_cong:
  "sync_status s = sync_status s' \<Longrightarrow> indexed_height_of s = indexed_height_of s'"
  by (simp add: indexed_height_of_def)

lemma index_blocks_session_result:
  assumes "index_blocks_session E bs s = Inr s'"
  shows "\<exists>st. index_block_loop E bs empty_batch = Inr st \<and>
           (\<exists>s1. flush st (set_indexed_height (max_height st) s) = Inr s1) \<and>
           blocks s' = blocks s @ new_blocks st \<and>
           transactions s' = transactions s @ new_txs st \<and>
           indexed_height_of s' = max_height st"
proof -
  from assms obtain st s1 where
    l: "index_block_loop E bs empty_batch = Inr st" and
    f: "flush st (set_indexed_height (max_height st) s) = Inr s1" and
    r: "s' = (if addresses_to_update st \<noteq> []
              then update_accounts_batch E (addresses_to_update st) (max_height st) s1 else s1)"
    by (auto simp: index_blocks_session_def ebind_eq_Inr)
  from flush_result[OF f] have
    a: "blocks s1 = blocks s @ new_blocks st" "transactions s1 = transactions s @ new_txs st"
       "sync_status s1 = sync_status (set_indexed_height (max_height st) s)"
    by simp_all
  have "indexed_height_of s1 = max_height st"
    using indexed_height_cong[OF a(3)] by simp
  with a r l f show ?thesis
    by (auto simp: indexed_height_cong[of "update_accounts_batch E (addresses_to_update st) (max_height st) s1" s1])
qed

lemma index_blocks_batch_ok:
  assumes "index_blocks_batch E bs w = (w', Inr ())" and "bs \<noteq> []"
  shows "\<exists>s'. index_blocks_session E bs (db w) = Inr s' \<and> \<not> commit_fails E s' \<and>
           w' = w\<lparr>db := s', trace := trace w @ [TxBegin, TxCommit]\<rparr>"
  using assms
  by (auto simp: index_blocks_batch_def session_statements split: sum.splits if_splits)

lemma index_blocks_batch_failed:
  assumes "index_blocks_batch E bs w = (w', Inl e)"
  shows "w' = w\<lparr>trace := trace w @ [TxBegin, TxRollback]\<rparr>"
  using assms
  by (auto simp: index_blocks_batch_def session_statements split: sum.splits if_splits)

lemma persist_ok:
  assumes "index_blocks_batch E bs w = (w', Inr ())" and "bs \<noteq> []"
  shows "\<exists>blks rows.
           blocks (db w') = blocks (db w) @ blks \<and>
           list_all2 (\<lambda>b blk. block_height_of b = Inr (blk_height blk) \<and>
                              compute_block_hash E b = Inr (blk_hash blk)) bs blks \<and>
           indexed_height_of (db w') = Max (insert 0 (blk_height ` set blks)) \<and>
           transactions (db w') = transactions (db w) @ rows \<and>
           (\<forall>r\<in>set rows. tx_block_height r \<in> blk_height ` set blks \<and>
              (\<exists>b\<in>set bs. \<exists>tx\<in>set (source_txs b). \<exists>h j. index_tx E h j tx = Inr r)) \<and>
           trace w' = trace w @ [TxBegin, TxCommit] \<and>
           last_resync_time w' = last_resync_time w"
proof -
  from index_blocks_batch_ok[OF assms] obtain s' where
    s: "index_blocks_session E bs (db w) = Inr s'"
    and w': "w' = w\<lparr>db := s', trace := trace w @ [TxBegin, TxCommit]\<rparr>"
    by blast
  from index_blocks_session_result[OF s] obtain st where
    st: "index_block_loop E bs empty_batch = Inr st"
        "blocks s' = blocks (db w) @ new_blocks st"
        "transactions s' = transactions (db w) @ new_txs st"
        "indexed_height_of s' = max_height st"
    by blast
  from index_block_loop_result[OF st(1)] obtain blks rows where
    r: "new_blocks st = blks"
       "list_all2 (\<lambda>b blk. block_height_of b = Inr (blk_height blk) \<and>
                              compute_block_hash E b = Inr (blk_hash blk)) bs blks"
       "max_height st = Max (insert 0 (blk_height ` set blks))"
       "new_txs st = rows"
       "\<forall>r\<in>set rows. tx_block_height r \<in> blk_height ` set blks \<and>
              (\<exists>b\<in>set bs. \<exists>tx\<in>set (source_txs b). \<exists>h j. index_tx E h j tx = Inr r)"
    by (auto simp: empty_batch_def)
  show ?thesis
    using st(2,3,4) r w' by auto
qed

lemma upsert_account_preserves:
  assumes "\<forall>a\<in>set (accounts s). acc_address a = address \<longrightarrow>
             acc_last_seen_height a = Some height \<and> acc_last_seen_at a = Some (utcnow E) \<and>
             acc_first_seen_height a = None \<and> acc_first_seen_at a = None"
  shows "\<forall>a\<in>set (accounts (upsert_account E height y s)). acc_address a = address \<longrightarrow>
             acc_last_seen_height a = Some height \<and> acc_last_seen_at a = Some (utcnow E) \<and>
             acc_first_seen_height a = None \<and> acc_first_seen_at a = None"
  using assms by (auto simp: upsert_account_def)

lemma upsert_account_addresses:
  "acc_address ` set (accounts (upsert_account E height y s)) = insert y (acc_address ` set (accounts s))"
proof -
  have "map acc_address (map (\<lambda>a. if acc_address a = y
                        then a\<lparr>acc_last_seen_height := Some height,
                               acc_last_seen_at := Some (utcnow E),
                               acc_updated_at := utcnow E\<rparr>
                        else a) xs) = map acc_address xs" for xs
    by (induction xs) simp_all
  then have "acc_address ` set (map (\<lambda>a. if acc_address a = y
                        then a\<lparr>acc_last_seen_height := Some height,
                               acc_last_seen_at := Some (utcnow E),
                               acc_updated_at := utcnow E\<rparr>
                        else a) xs) = acc_address ` set xs" for xs
    by (metis set_map)
  note upd = this
  show ?thesis
  proof (cases "y \<in> set (map acc_address (accounts s))")
    case True
    then have "insert y (acc_address ` set (accounts s)) = acc_address ` set (accounts s)"
      by auto
    moreover have "acc_address ` set (accounts (upsert_account E height y s)) = acc_address ` set (accounts s)"
      using True upd[of "accounts s"] by (simp add: upsert_account_def del: set_map)
    ultimately show ?thesis by simp
  next
    case False
    then show ?thesis by (simp add: upsert_account_def)
  qed
qed

lemma update_accounts_batch_preserves:
  assumes "\<forall>a\<in>set (accounts s). acc_address a = address \<longrightarrow>
             acc_last_seen_height a = Some height \<and> acc_last_seen_at a = Some (utcnow E) \<and>
             acc_first_seen_height a = None \<and> acc_first_seen_at a = None"
  shows "\<forall>a\<in>set (accounts (update_accounts_batch E addresses height s)). acc_address a = address \<longrightarrow>
             acc_last_seen_height a = Some height \<and> acc_last_seen_at a = Some (utcnow E) \<and>
             acc_first_seen_height a = None \<and> acc_first_seen_at a = None"
  using assms unfolding update_accounts_batch_def
proof (induction addresses arbitrary: s)
  case Nil
  then show ?case by simp
next
  case (Cons y ys)
  from Cons.IH[OF upsert_account_preserves[OF Cons.prems]] show ?case by simp
qed

lemma update_accounts_batch_addresses:
  "acc_address ` set (accounts (update_accounts_batch E addresses height s)) =
     set addresses \<union> acc_address ` set (accounts s)"
  unfolding update_accounts_batch_def
  by (induction addresses arbitrary: s) (auto simp: upsert_account_addresses)


lemma efold_insert_block_conflict:
  assumes "rs \<noteq> []" and "blk_height (hd rs) \<in> blk_height ` set (blocks s)"
  shows "efold insert_block rs s = Inl IntegrityError"
  using assms by (cases rs) (auto simp: insert_block_def)

lemma efold_insert_block_distinct:
  assumes "efold insert_block rs s = Inr s'" and "distinct (map blk_height (blocks s))"
  shows "distinct (map blk_height (blocks s'))"
  using assms
proof (induction rs arbitrary: s)
  case Nil
  then show ?case by simp
next
  case (Cons r rs)
  from Cons.prems(1) obtain s1 where a: "insert_block r s = Inr s1" and b: "efold insert_block rs s1 = Inr s'"
    by (auto simp: ebind_eq_Inr)
  from a Cons.prems(2) have "distinct (map blk_height (blocks s1))"
    by (auto simp: insert_block_def split: if_splits)
  from Cons.IH[OF b this] show ?case .
qed

lemma efold_insert_tx_distinct:
  assumes "efold insert_tx rs s = Inr s'" and "distinct (map tx_hash (transactions s))"
  shows "distinct (map tx_hash (transactions s'))"
  using assms
proof (induction rs arbitrary: s)
  case Nil
  then show ?case by simp
next
  case (Cons r rs)
  from Cons.prems(1) obtain s1 where a: "insert_tx r s = Inr s1" and b: "efold insert_tx rs s1 = Inr s'"
    by (auto simp: ebind_eq_Inr)
  from a Cons.prems(2) have "distinct (map tx_hash (transactions s1))"
    by (auto simp: insert_tx_def split: if_splits)
  from Cons.IH[OF b this] show ?case .
qed

lemma index_blocks_session_distinct:
  assumes "index_blocks_session E bs s = Inr s'"
  shows "(distinct (map blk_height (blocks s)) \<longrightarrow> distinct (map blk_height (blocks s'))) \<and>
         (distinct (map tx_hash (transactions s)) \<longrightarrow> distinct (map tx_hash (transactions s')))"
proof -
  from assms obtain st s2 where
    f: "flush st (set_indexed_height (max_height st) s) = Inr s2" and
    r: "s' = (if addresses_to_update st \<noteq> []
              then update_accounts_batch E (addresses_to_update st) (max_height st) s2 else s2)"
    by (auto simp: index_blocks_session_def ebind_eq_Inr)
  from f obtain s1 where a: "efold insert_block (new_blocks st) (set_indexed_height (max_height st) s) = Inr s1"
    and b: "efold insert_tx (new_txs st) s1 = Inr s2"
    by (auto simp: flush_def ebind_eq_Inr)
  have t1: "transactions s1 = transactions s"
    using efold_insert_block[OF a] by simp
  have b2: "blocks s2 = blocks s1"
    using efold_insert_tx[OF b] by simp
  have "distinct (map blk_height (blocks s)) \<Longrightarrow> distinct (map blk_height (blocks s2))"
    using efold_insert_block_distinct[OF a] b2 by simp
  moreover have "distinct (map tx_hash (transactions s)) \<Longrightarrow> distinct (map tx_hash (transactions s2))"
    using efold_insert_tx_distinct[OF b] t1 by simp
  ultimately show ?thesis using r by simp
qed

lemma index_block_loop_nonempty:
  assumes "index_block_loop E bs st = Inr st'" and "bs \<noteq> []"
  shows "new_blocks st' \<noteq> []"
proof -
  from index_block_loop_result[OF assms(1)] obtain blks where
    a: "new_blocks st' = new_blocks st @ blks"
    and b: "list_all2 (\<lambda>b blk. block_height_of b = Inr (blk_height blk) \<and>
                              compute_block_hash E b = Inr (blk_hash blk)) bs blks"
    by blast
  from b have "length bs = length blks" by (rule list_all2_lengthD)
  with assms(2) have "blks \<noteq> []" by auto
  with a show ?thesis by simp
qed

lemma Max_insert_zero:
  assumes "finite S" and "S \<noteq> {}" and "\<forall>h\<in>S. (0::int) \<le> h"
  shows "Max (insert 0 S) = Max S"
proof -
  have "Max (insert 0 S) = max 0 (Max S)"
    using assms(1,2) by simp
  moreover have "0 \<le> Max S"
    using assms by (meson Max_in)
  ultimately show ?thesis by simp
qed

lemma persist_watermark:
  assumes ok: "index_blocks_batch E blocks_data w = (w', Inr ())" and ne: "blocks_data \<noteq> []"
  shows "\<exists>new. new \<noteq> [] \<and> blocks (db w') = blocks (db w) @ new \<and>
           list_all2 (\<lambda>b blk. block_height_of b = Inr (blk_height blk)) blocks_data new \<and>
           indexed_height_of (db w') = Max (insert 0 (blk_height ` set new))"
proof -
  from persist_ok[OF ok ne] obtain blks where
    a: "blocks (db w') = blocks (db w) @ blks"
       "list_all2 (\<lambda>b blk. block_height_of b = Inr (blk_height blk) \<and>
                              compute_block_hash E b = Inr (blk_hash blk)) blocks_data blks"
       "indexed_height_of (db w') = Max (insert 0 (blk_height ` set blks))"
    by blast
  from a(2) have l: "list_all2 (\<lambda>b blk. block_height_of b = Inr (blk_height blk)) blocks_data blks"
    by (rule list_all2_mono) simp
  from a(2) have "length blocks_data = length blks" by (rule list_all2_lengthD)
  with ne have "blks \<noteq> []" by auto
  with a l show ?thesis by blast
qed

lemma persist_watermark_facts:
  assumes ok: "index_blocks_batch E blocks_data w = (w', Inr ())" and ne: "blocks_data \<noteq> []"
  shows "\<exists>new. new \<noteq> [] \<and> blocks (db w') = blocks (db w) @ new \<and>
           list_all2 (\<lambda>b blk. block_height_of b = Inr (blk_height blk)) blocks_data new \<and>
           ((\<forall>b\<in>set new. 0 \<le> blk_height b) \<longrightarrow>
              indexed_height_of (db w') = Max (blk_height ` set new)) \<and>
           (watermark_covers (db w) \<and> (\<forall>b\<in>set new. indexed_height_of (db w) < blk_height b) \<longrightarrow>
              indexed_height_of (db w) < indexed_height_of (db w') \<and>
              indexed_height_of (db w') = Max (blk_height ` set new) \<and>
              indexed_height_of (db w') = Max (blk_height ` set (blocks (db w'))) \<and>
              watermark_covers (db w'))"
proof -
  from persist_watermark[OF ok ne] obtain new where
    n: "new \<noteq> []" "blocks (db w') = blocks (db w) @ new"
       "list_all2 (\<lambda>b blk. block_height_of b = Inr (blk_height blk)) blocks_data new"
       "indexed_height_of (db w') = Max (insert 0 (blk_height ` set new))"
    by blast
  let ?H = "blk_height ` set new"
  have fin: "finite ?H" "?H \<noteq> {}" using n(1) by simp_all
  have p1: "indexed_height_of (db w') = Max ?H" if "\<forall>b\<in>set new. 0 \<le> blk_height b"
    using Max_insert_zero[OF fin] that n(4) by auto
  have p2: "indexed_height_of (db w) < indexed_height_of (db w') \<and>
            indexed_height_of (db w') = Max ?H \<and>
            indexed_height_of (db w') = Max (blk_height ` set (blocks (db w'))) \<and>
            watermark_covers (db w')"
    if c: "watermark_covers (db w)" and above: "\<forall>b\<in>set new. indexed_height_of (db w) < blk_height b"
  proof -
    from c have w0: "0 \<le> indexed_height_of (db w)"
      and old: "\<forall>b\<in>set (blocks (db w)). blk_height b \<le> indexed_height_of (db w)"
      by (simp_all add: watermark_covers_def list_all_iff)
    from above w0 have "\<forall>b\<in>set new. 0 \<le> blk_height b" by force
    from p1[OF this] have m: "indexed_height_of (db w') = Max ?H" .
    have in_H: "Max ?H \<in> ?H" using fin by (rule Max_in)
    then obtain b where b: "b \<in> set new" "blk_height b = Max ?H" by auto
    from above b have lt: "indexed_height_of (db w) < Max ?H" by auto
    have all_le: "\<forall>h\<in>blk_height ` set (blocks (db w')). h \<le> Max ?H"
    proof
      fix h assume "h \<in> blk_height ` set (blocks (db w'))"
      then consider "h \<in> blk_height ` set (blocks (db w))" | "h \<in> ?H"
        using n(2) by auto
      then show "h \<le> Max ?H"
      proof cases
        case 1
        with old lt show ?thesis by force
      next
        case 2
        then show ?thesis using fin(1) by simp
      qed
    qed
    have "Max ?H \<in> blk_height ` set (blocks (db w'))"
      using in_H n(2) by auto
    then have "Max (blk_height ` set (blocks (db w'))) = Max ?H"
      using all_le by (intro Max_eqI) auto
    moreover have "watermark_covers (db w')"
      using all_le m w0 lt by (auto simp: watermark_covers_def list_all_iff)
    ultimately show ?thesis using m lt by simp
  qed
  from n(1,2,3) p1 p2 show ?thesis by blast
qed

lemma filter_valid_eq: "filter_valid blocks_data acc = acc @ filter (\<lambda>b. b \<noteq> JNull) blocks_data"
  by (induction blocks_data arbitrary: acc) simp_all

lemma valid_blocks_of_fetch:
  "filter_valid (snd (fetch_blocks E lo hi w)) [] =
     map (get_block E) (filter (\<lambda>h. get_block E h \<noteq> JNull) [lo..hi])"
  by (simp add: fetch_blocks_def filter_valid_eq filter_map comp_def)

lemma fetch_blocks_world:
  "fst (fetch_blocks E lo hi w) = w\<lparr>trace := trace w @ map NetGetBlock [lo..hi]\<rparr>"
  by (simp add: fetch_blocks_def)

lemma sync_batches_unfold:
  "sync_batches E a b w =
     (if b < a then (w, Inr ())
      else if filter_valid (snd (fetch_blocks E a (min (a + 49) b) w)) [] = []
           then (fst (fetch_blocks E a (min (a + 49) b) w), Inr ())
           else wbind (index_blocks_batch E (filter_valid (snd (fetch_blocks E a (min (a + 49) b) w)) [])
                         (fst (fetch_blocks E a (min (a + 49) b) w)))
                  (\<lambda>_. sync_batches E (a + 50) b))"
  by (subst sync_batches.simps) (simp add: BATCH_SIZE_def Let_def split_beta add.commute)

lemma sync_batches_watermark:
  assumes "\<forall>h\<in>set [a..b]. answers_own_height E h"
    and "watermark_covers (db w)" and "indexed_height_of (db w) < a"
  shows "indexed_height_of (db w) \<le> indexed_height_of (db (fst (sync_batches E a b w))) \<and>
         watermark_covers (db (fst (sync_batches E a b w))) \<and>
         (db (fst (sync_batches E a b w)) = db w \<or>
          indexed_height_of (db (fst (sync_batches E a b w)))
            = Max (blk_height ` set (blocks (db (fst (sync_batches E a b w))))))"
  using assms
proof (induction E a b w rule: sync_batches.induct)
  case (1 E a b w)
  let ?e = "min (a + 49) b"
  let ?w1 = "fst (fetch_blocks E a ?e w)"
  let ?valid = "filter_valid (snd (fetch_blocks E a ?e w)) []"
  have db1: "db ?w1 = db w" by (simp add: fetch_blocks_world)
  show ?case
  proof (cases "b < a")
    case True
    then show ?thesis using "1.prems" by (simp add: sync_batches_unfold)
  next
    case False
    note nb = this
    show ?thesis
    proof (cases "?valid = []")
      case True
      then show ?thesis using "1.prems" nb db1 by (simp add: sync_batches_unfold)
    next
      case False
      note ne = this
      obtain w2 r where p: "index_blocks_batch E ?valid ?w1 = (w2, r)" by (cases "index_blocks_batch E ?valid ?w1")
      show ?thesis
      proof (cases r)
        case (Inl e)
        with p have "db w2 = db ?w1" using index_blocks_batch_failed by fastforce
        moreover have "sync_batches E a b w = (w2, Inl e)"
          using nb ne p Inl by (simp add: sync_batches_unfold wbind_def)
        ultimately show ?thesis using "1.prems" db1 by simp
      next
        case (Inr u)
        with p have ok: "index_blocks_batch E ?valid ?w1 = (w2, Inr ())" by simp
        have step: "sync_batches E a b w = sync_batches E (a + 50) b w2"
          using nb ne ok by (simp add: sync_batches_unfold wbind_def)
        from persist_watermark_facts[OF ok ne] obtain new where
          n: "new \<noteq> []" "blocks (db w2) = blocks (db ?w1) @ new"
             "list_all2 (\<lambda>b blk. block_height_of b = Inr (blk_height blk)) ?valid new"
             "watermark_covers (db ?w1) \<and> (\<forall>b\<in>set new. indexed_height_of (db ?w1) < blk_height b) \<longrightarrow>
                indexed_height_of (db ?w1) < indexed_height_of (db w2) \<and>
                indexed_height_of (db w2) = Max (blk_height ` set new) \<and>
                indexed_height_of (db w2) = Max (blk_height ` set (blocks (db w2))) \<and>
                watermark_covers (db w2)"
          by blast
        have range: "\<forall>blk\<in>set new. a \<le> blk_height blk \<and> blk_height blk \<le> ?e"
        proof
          fix blk assume "blk \<in> set new"
          then obtain i where i: "i < length new" "new ! i = blk"
            by (auto simp: in_set_conv_nth)
          from n(3) have len: "length ?valid = length new"
            by (rule list_all2_lengthD)
          from n(3) i(1) have "block_height_of (?valid ! i) = Inr (blk_height (new ! i))"
            by (rule list_all2_nthD2)
          moreover have "?valid ! i \<in> set ?valid"
            using i(1) len by simp
          ultimately obtain bd where bd: "bd \<in> set ?valid" "block_height_of bd = Inr (blk_height blk)"
            using i(2) by blast
          from bd(1) obtain h where h: "a \<le> h" "h \<le> ?e" "bd = get_block E h"
            by (auto simp: valid_blocks_of_fetch)
          from h(1,2) have "h \<in> set [a..b]" by auto
          with "1.prems"(1) have "answers_own_height E h" by blast
          with bd(2) h(3) have "blk_height blk = h" by (simp add: answers_own_height_def)
          with h show "a \<le> blk_height blk \<and> blk_height blk \<le> ?e" by simp
        qed
        have above: "\<forall>blk\<in>set new. indexed_height_of (db ?w1) < blk_height blk"
          using range "1.prems"(3) db1 by force
        from n(4) above "1.prems"(2) db1 have
          f: "indexed_height_of (db w) < indexed_height_of (db w2)"
             "indexed_height_of (db w2) = Max (blk_height ` set new)"
             "indexed_height_of (db w2) = Max (blk_height ` set (blocks (db w2)))"
             "watermark_covers (db w2)"
          by simp_all
        have "Max (blk_height ` set new) \<in> blk_height ` set new"
          using n(1) by (intro Max_in) simp_all
        with range f(2) have le: "indexed_height_of (db w2) \<le> ?e" by auto
        then have next_above: "indexed_height_of (db w2) < a + 50" by simp
        have cons: "\<forall>h\<in>set [a + 50..b]. answers_own_height E h"
          using "1.prems"(1) by auto
        have e_eq: "min (a + BATCH_SIZE - 1) b = ?e"
          by (simp add: BATCH_SIZE_def)
        have valid: "?valid = filter_valid (snd (fetch_blocks E a (min (a + BATCH_SIZE - 1) b) w)) []"
          unfolding e_eq ..
        have IH: "indexed_height_of (db w2) \<le> indexed_height_of (db (fst (sync_batches E (a + 50) b w2))) \<and>
           watermark_covers (db (fst (sync_batches E (a + 50) b w2))) \<and>
           (db (fst (sync_batches E (a + 50) b w2)) = db w2 \<or>
            indexed_height_of (db (fst (sync_batches E (a + 50) b w2)))
              = Max (blk_height ` set (blocks (db (fst (sync_batches E (a + 50) b w2))))))"
        proof -
          have ne': "filter_valid (snd (fetch_blocks E a (min (a + BATCH_SIZE - 1) b) w)) [] \<noteq> []"
            using ne valid by simp
          have pr: "(fst (fetch_blocks E a (min (a + BATCH_SIZE - 1) b) w),
                     snd (fetch_blocks E a (min (a + BATCH_SIZE - 1) b) w))
                    = fetch_blocks E a (min (a + BATCH_SIZE - 1) b) w"
            by simp
          have cons': "\<forall>h\<in>set [a + BATCH_SIZE..b]. answers_own_height E h"
            using cons by (simp add: BATCH_SIZE_def)
          have na': "indexed_height_of (db w2) < a + BATCH_SIZE"
            using next_above by (simp add: BATCH_SIZE_def)
          from "1.IH"[OF nb refl refl pr refl ne' cons' f(4) na']
          show ?thesis by (simp add: BATCH_SIZE_def)
        qed
        then show ?thesis
          unfolding step using f(1,3) by auto
      qed
    qed
  qed
qed

lemma index_blocks_session_accounts:
  assumes "index_blocks_session E bs s = Inr s'"
  shows "\<exists>st s2. index_block_loop E bs empty_batch = Inr st \<and> accounts s2 = accounts s \<and>
           accounts s' = accounts (update_accounts_batch E (addresses_to_update st) (max_height st) s2) \<and>
           indexed_height_of s' = max_height st"
proof -
  from assms obtain st s2 where
    l: "index_block_loop E bs empty_batch = Inr st" and
    f: "flush st (set_indexed_height (max_height st) s) = Inr s2" and
    r: "s' = (if addresses_to_update st \<noteq> []
              then update_accounts_batch E (addresses_to_update st) (max_height st) s2 else s2)"
    by (auto simp: index_blocks_session_def ebind_eq_Inr)
  from flush_result[OF f] have a: "accounts s2 = accounts s" by simp
  have u: "accounts s' = accounts (update_accounts_batch E (addresses_to_update st) (max_height st) s2)"
    using r by (cases "addresses_to_update st = []") (simp_all add: update_accounts_batch_def)
  from index_blocks_session_result[OF assms] l
  have "indexed_height_of s' = max_height st" by auto
  with l a u show ?thesis by blast
qed




lemma world_summary_rows:
  assumes "world_summary w = (bs, ts, m)"
  shows "map blk_height (blocks (db w)) = map fst bs"
    and "map blk_state_root (blocks (db w)) = map snd bs"
    and "map tx_block_height (transactions (db w)) = ts"
    and "indexed_height_of (db w) = m"
  using assms by (auto simp: world_summary_def)


subsection \<open>Chain hashing\<close>

text \<open>
  Claim C3. \<^verbatim>\<open>compute_block_hash\<close> and \<^verbatim>\<open>compute_tx_hash\<close> are functions of their input
  (two runs over the same input give the same hash), and they read nothing but the fixed
  fields: two blocks whose headers agree on height, prev_hash, timestamp, tx_root and
  state_root have the same hash, and so have two transactions that agree on tx_type,
  from_address, to_address, amount, nonce and signature. A change to any other field,
  such as gas_used, leaves the hash as it was.
\<close>

theorem hash_depends_only_on_hashed_fields:
  "((\<forall>k\<in>set block_hash_fields. header_get b1 k = header_get b2 k)
      \<longrightarrow> compute_block_hash E b1 = compute_block_hash E b2) \<and>
   ((\<forall>k\<in>set tx_hash_fields. dict_get t1 k JNull = dict_get t2 k JNull)
      \<longrightarrow> compute_tx_hash E t1 = compute_tx_hash E t2)"
  using block_hash_agree tx_hash_agree by blast

text \<open>Two blocks, and two transactions, that differ in gas_used only.\<close>

theorem hash_depends_only_on_hashed_fields_witness:
  "list_all (\<lambda>k. header_get (example_block 5 ''root'' 21000 []) k =
                  header_get (example_block 5 ''root'' 99 []) k) block_hash_fields \<and>
   example_block 5 ''root'' 21000 [] \<noteq> example_block 5 ''root'' 99 [] \<and>
   compute_block_hash (example_env (\<lambda>h. JNull) 0) (example_block 5 ''root'' 21000 []) =
     compute_block_hash (example_env (\<lambda>h. JNull) 0) (example_block 5 ''root'' 99 []) \<and>
   list_all (\<lambda>k. dict_get (example_tx ''alice'' ''bob'' 1 21000 7) k JNull =
                  dict_get (example_tx ''alice'' ''bob'' 1 21000 8) k JNull) tx_hash_fields \<and>
   example_tx ''alice'' ''bob'' 1 21000 7 \<noteq> example_tx ''alice'' ''bob'' 1 21000 8 \<and>
   compute_tx_hash (example_env (\<lambda>h. JNull) 0) (example_tx ''alice'' ''bob'' 1 21000 7) =
     compute_tx_hash (example_env (\<lambda>h. JNull) 0) (example_tx ''alice'' ''bob'' 1 21000 8)"
proof -
  have b: "\<forall>k\<in>set block_hash_fields.
      header_get (example_block 5 ''root'' 21000 []) k = header_get (example_block 5 ''root'' 99 []) k"
    by (simp add: block_hash_fields_def header_get_def example_block_def)
  have t: "\<forall>k\<in>set tx_hash_fields.
      dict_get (example_tx ''alice'' ''bob'' 1 21000 7) k JNull =
      dict_get (example_tx ''alice'' ''bob'' 1 21000 8) k JNull"
    by (simp add: tx_hash_fields_def example_tx_def)
  have d: "example_block 5 ''root'' 21000 [] \<noteq> example_block 5 ''root'' 99 []"
    "example_tx ''alice'' ''bob'' 1 21000 7 \<noteq> example_tx ''alice'' ''bob'' 1 21000 8"
    by (simp_all add: example_block_def example_tx_def)
  from b t d
    hash_depends_only_on_hashed_fields
      [of "example_block 5 ''root'' 21000 []" "example_block 5 ''root'' 99 []"
          "example_env (\<lambda>h. JNull) 0"
          "example_tx ''alice'' ''bob'' 1 21000 7" "example_tx ''alice'' ''bob'' 1 21000 8"]
  show ?thesis unfolding list_all_iff by blast
qed

subsection \<open>Stored gas\<close>

text \<open>
  Claim C10. Every transaction row that a successful persist adds to the store was built
  from a transaction of one of the batch's blocks, and its stored gas_used is that source
  transaction's \<^verbatim>\<open>gas_limit\<close> entry (0 when the entry is absent); the source's own
  \<^verbatim>\<open>gas_used\<close> entry is not read.
\<close>

theorem persisted_gas_used_is_source_gas_limit:
  assumes "index_blocks_batch E blocks_data w = (w', Inr ())"
    and "r \<in> set (transactions (db w'))"
    and "r \<notin> set (transactions (db w))"
  shows "\<exists>block_data\<in>set blocks_data. \<exists>tx_data\<in>set (source_txs block_data).
           (\<exists>h j. index_tx E h j tx_data = Inr r) \<and>
           dict_get tx_data ''gas_limit'' (JInt 0) = Inr (tx_gas_used r)"
proof (cases "blocks_data = []")
  case True
  with assms show ?thesis by (simp add: index_blocks_batch_def)
next
  case False
  from persist_ok[OF assms(1) False] obtain rows where
    a: "transactions (db w') = transactions (db w) @ rows"
       "\<forall>r\<in>set rows. \<exists>b\<in>set blocks_data. \<exists>tx\<in>set (source_txs b). \<exists>h j. index_tx E h j tx = Inr r"
    by blast
  from a(1) assms(2,3) have "r \<in> set rows" by auto
  with a(2) obtain b tx h j where
    b: "b \<in> set blocks_data" "tx \<in> set (source_txs b)" "index_tx E h j tx = Inr r"
    by blast
  from index_tx_gas[OF b(3)] b show ?thesis by blast
qed


text \<open>The source transaction has gas_limit 21000 and gas_used 7; the row stores 21000.\<close>

theorem persisted_gas_used_is_source_gas_limit_witness:
  "index_blocks_batch (example_env (\<lambda>h. JNull) 0) example_batch empty_world
     = (example_batch_world, Inr ()) \<and>
   hd (transactions (db example_batch_world)) \<in> set (transactions (db example_batch_world)) \<and>
   hd (transactions (db example_batch_world)) \<notin> set (transactions (db empty_world)) \<and>
   tx_gas_used (hd (transactions (db example_batch_world))) = JInt 21000 \<and>
   (\<exists>block_data\<in>set example_batch. \<exists>tx_data\<in>set (source_txs block_data).
      (\<exists>h j. index_tx (example_env (\<lambda>h. JNull) 0) h j tx_data
                = Inr (hd (transactions (db example_batch_world)))) \<and>
      dict_get tx_data ''gas_limit'' (JInt 0)
        = Inr (tx_gas_used (hd (transactions (db example_batch_world)))))"
proof -
  have "snd (index_blocks_batch (example_env (\<lambda>h. JNull) 0) example_batch empty_world) = Inr ()"
    by code_simp
  then have ok: "index_blocks_batch (example_env (\<lambda>h. JNull) 0) example_batch empty_world
     = (example_batch_world, Inr ())"
    by (simp add: example_batch_world_def prod_eq_iff)
  have mem: "hd (transactions (db example_batch_world)) \<in> set (transactions (db example_batch_world))"
    by code_simp
  have new: "hd (transactions (db example_batch_world)) \<notin> set (transactions (db empty_world))"
    by (simp add: empty_world_def)
  have gas: "tx_gas_used (hd (transactions (db example_batch_world))) = JInt 21000"
    by code_simp
  from persisted_gas_used_is_source_gas_limit[OF ok mem new] ok mem new gas
  show ?thesis by blast
qed

subsection \<open>Account ledger\<close>

text \<open>
  Claim C9, as the code has it. Take any row of the account ledger after a committed
  persist whose address was not in the ledger before, that is, a row that the batch upsert
  inserted. Its last_seen_height is the maximum height of the batch (the watermark the
  same transaction wrote) and its last_seen_at is the current time; first_seen_height and
  first_seen_at are not among the inserted values and are NULL.
\<close>

theorem first_insert_sets_last_seen_only:
  assumes "index_blocks_batch E blocks_data w = (w', Inr ())"
    and "a \<in> set (accounts (db w'))"
    and "acc_address a \<notin> acc_address ` set (accounts (db w))"
  shows "\<exists>new. blocks (db w') = blocks (db w) @ new \<and>
           acc_last_seen_height a = Some (Max (insert 0 (blk_height ` set new))) \<and>
           acc_last_seen_height a = Some (indexed_height_of (db w')) \<and>
           acc_last_seen_at a = Some (utcnow E) \<and>
           acc_first_seen_height a = None \<and>
           acc_first_seen_at a = None"
proof (cases "blocks_data = []")
  case True
  with assms(1) have "w' = w" by (simp add: index_blocks_batch_def)
  with assms(2,3) show ?thesis by auto
next
  case False
  from index_blocks_batch_ok[OF assms(1) False] obtain s' where
    s: "index_blocks_session E blocks_data (db w) = Inr s'"
    and w': "w' = w\<lparr>db := s', trace := trace w @ [TxBegin, TxCommit]\<rparr>"
    by blast
  from index_blocks_session_accounts[OF s] obtain st :: batch and s2 :: store where
    a: "accounts s2 = accounts (db w)"
       "accounts s' = accounts (update_accounts_batch E (addresses_to_update st) (max_height st) s2)"
       "indexed_height_of s' = max_height st"
    by blast
  have "\<forall>x\<in>set (accounts s2). acc_address x = acc_address a \<longrightarrow>
             acc_last_seen_height x = Some (max_height st) \<and> acc_last_seen_at x = Some (utcnow E) \<and>
             acc_first_seen_height x = None \<and> acc_first_seen_at x = None"
    using assms(3) a(1) by (metis image_eqI)
  from update_accounts_batch_preserves[OF this, of "addresses_to_update st"] assms(2) w' a(2)
  have row: "acc_last_seen_height a = Some (max_height st) \<and> acc_last_seen_at a = Some (utcnow E) \<and>
             acc_first_seen_height a = None \<and> acc_first_seen_at a = None"
    by simp
  from persist_watermark[OF assms(1) False] obtain new where
    n: "blocks (db w') = blocks (db w) @ new"
       "indexed_height_of (db w') = Max (insert 0 (blk_height ` set new))"
    by blast
  have "indexed_height_of (db w') = max_height st"
    using a(3) w' by simp
  with row n show ?thesis by auto
qed

text \<open>The example batch (one block of height 1) persisted into the empty store.\<close>

theorem first_insert_sets_last_seen_only_witness:
  "index_blocks_batch (example_env (\<lambda>h. JNull) 0) example_batch empty_world
     = (example_batch_world, Inr ()) \<and>
   hd (accounts (db example_batch_world)) \<in> set (accounts (db example_batch_world)) \<and>
   acc_address (hd (accounts (db example_batch_world))) \<notin> acc_address ` set (accounts (db empty_world)) \<and>
   map blk_height (blocks (db example_batch_world)) = [1] \<and>
   acc_last_seen_height (hd (accounts (db example_batch_world))) = Some 1 \<and>
   acc_last_seen_at (hd (accounts (db example_batch_world))) = Some 1000 \<and>
   acc_first_seen_height (hd (accounts (db example_batch_world))) = None \<and>
   acc_first_seen_at (hd (accounts (db example_batch_world))) = None \<and>
   (\<exists>new. blocks (db example_batch_world) = blocks (db empty_world) @ new \<and>
      acc_last_seen_height (hd (accounts (db example_batch_world)))
        = Some (Max (insert 0 (blk_height ` set new))))"
proof -
  have ok: "index_blocks_batch (example_env (\<lambda>h. JNull) 0) example_batch empty_world
     = (example_batch_world, Inr ())"
    by code_simp
  have mem: "hd (accounts (db example_batch_world)) \<in> set (accounts (db example_batch_world))"
    by code_simp
  have new: "acc_address (hd (accounts (db example_batch_world)))
      \<notin> acc_address ` set (accounts (db empty_world))"
    by (simp add: empty_world_def)
  have vals: "map blk_height (blocks (db example_batch_world)) = [1] \<and>
     acc_last_seen_height (hd (accounts (db example_batch_world))) = Some 1 \<and>
     acc_last_seen_at (hd (accounts (db example_batch_world))) = Some 1000 \<and>
     acc_first_seen_height (hd (accounts (db example_batch_world))) = None \<and>
     acc_first_seen_at (hd (accounts (db example_batch_world))) = None"
    by code_simp
  from first_insert_sets_last_seen_only[OF ok mem new] ok mem new vals
  show ?thesis by blast
qed

text \<open>
  The claim as the specification words it (the new row carries first_seen_height and
  first_seen_at) fails: after persisting the example batch into the empty store, the
  ledger holds the two addresses of the batch's transaction, and every row has NULL in
  both columns.
\<close>

theorem first_seen_left_null_counterexample:
  "accounts (db empty_world) = [] \<and>
   snd (index_blocks_batch (example_env (\<lambda>h. JNull) 0) example_batch empty_world) = Inr () \<and>
   set (map acc_address (accounts (db example_batch_world))) = {JStr ''alice'', JStr ''bob''} \<and>
   set (map acc_first_seen_height (accounts (db example_batch_world))) = {None} \<and>
   set (map acc_first_seen_at (accounts (db example_batch_world))) = {None}"
proof -
  have "map acc_address (accounts (db example_batch_world)) = [JStr ''bob'', JStr ''alice''] \<and>
   map acc_first_seen_height (accounts (db example_batch_world)) = [None, None] \<and>
   map acc_first_seen_at (accounts (db example_batch_world)) = [None, None] \<and>
   accounts (db empty_world) = [] \<and>
   snd (index_blocks_batch (example_env (\<lambda>h. JNull) 0) example_batch empty_world) = Inr ()"
    by code_simp
  then show ?thesis by auto
qed

subsection \<open>The example chain\<close>

text \<open>The rows and the watermark of the example chain's world, before and after
  \<^verbatim>\<open>_handle_reorg\<close> at height 7 against the reorganised chain.\<close>

lemma example_chain_world_summary:
  "world_summary example_chain_world =
     ([(1, JStr ''old''), (2, JStr ''old''), (3, JStr ''old''), (4, JStr ''old''), (5, JStr ''old''),
       (6, JStr ''old''), (7, JStr ''old''), (8, JStr ''old''), (9, JStr ''old''), (10, JStr ''old'')],
      [1, 2, 3, 4, 5, 6, 7, 8, 9, 10], 10)"
  by code_simp

lemma example_chain_world_rows:
  "map blk_height (blocks (db example_chain_world)) = [1, 2, 3, 4, 5, 6, 7, 8, 9, 10] \<and>
   map tx_block_height (transactions (db example_chain_world)) = [1, 2, 3, 4, 5, 6, 7, 8, 9, 10] \<and>
   indexed_height_of (db example_chain_world) = 10"
  using world_summary_rows[OF example_chain_world_summary] by simp



subsection \<open>Reorg Handler\<close>





subsection \<open>Persisting a range twice\<close>

text \<open>
  Claim C2, as the code has it. Blocks and transactions are written with plain INSERTs
  (\<^verbatim>\<open>session.add\<close>); only the watermark and the account ledger are upserted. So persisting
  a non-empty range that was already committed does not succeed: the first block hits the
  uniqueness constraint on \<^verbatim>\<open>blocks.height\<close>, the call raises an integrity error, the
  transaction is rolled back and the store is exactly the one the first run committed.
  Rows are never duplicated: a committed persist keeps block heights and transaction
  hashes pairwise distinct.
\<close>

theorem repersist_is_rejected:
  assumes "index_blocks_batch E blocks_data w = (w1, Inr ())" and "blocks_data \<noteq> []"
  shows "(\<exists>w2. index_blocks_batch E blocks_data w1 = (w2, Inl IntegrityError) \<and> db w2 = db w1) \<and>
         (distinct (map blk_height (blocks (db w))) \<longrightarrow> distinct (map blk_height (blocks (db w1)))) \<and>
         (distinct (map tx_hash (transactions (db w))) \<longrightarrow> distinct (map tx_hash (transactions (db w1))))"
proof -
  from index_blocks_batch_ok[OF assms] obtain s1 where
    s1: "index_blocks_session E blocks_data (db w) = Inr s1"
    and w1: "w1 = w\<lparr>db := s1, trace := trace w @ [TxBegin, TxCommit]\<rparr>"
    by blast
  from index_blocks_session_result[OF s1] obtain st where
    st: "index_block_loop E blocks_data empty_batch = Inr st"
        "blocks s1 = blocks (db w) @ new_blocks st"
    by blast
  have ne: "new_blocks st \<noteq> []"
    using index_block_loop_nonempty[OF st(1) assms(2)] .
  have "blk_height (hd (new_blocks st)) \<in> blk_height ` set (blocks (set_indexed_height (max_height st) s1))"
    using ne st(2) by (cases "new_blocks st") auto
  from efold_insert_block_conflict[OF ne this]
  have "flush st (set_indexed_height (max_height st) s1) = Inl IntegrityError"
    by (simp add: flush_def)
  then have "index_blocks_session E blocks_data s1 = Inl IntegrityError"
    using st(1) by (simp add: index_blocks_session_def)
  then have "index_blocks_batch E blocks_data w1 =
      (w1\<lparr>trace := trace w1 @ [TxBegin, TxRollback]\<rparr>, Inl IntegrityError)"
    using assms(2) w1 by (simp add: index_blocks_batch_def session_statements)
  then have "\<exists>w2. index_blocks_batch E blocks_data w1 = (w2, Inl IntegrityError) \<and> db w2 = db w1"
    by simp
  moreover from index_blocks_session_distinct[OF s1] w1
  have "(distinct (map blk_height (blocks (db w))) \<longrightarrow> distinct (map blk_height (blocks (db w1)))) \<and>
         (distinct (map tx_hash (transactions (db w))) \<longrightarrow> distinct (map tx_hash (transactions (db w1))))"
    by simp
  ultimately show ?thesis by blast
qed

text \<open>The example batch persisted into the empty store, then persisted again.\<close>

theorem repersist_is_rejected_witness:
  "index_blocks_batch (example_env (\<lambda>h. JNull) 0) example_batch empty_world
     = (example_batch_world, Inr ()) \<and>
   example_batch \<noteq> [] \<and>
   distinct (map blk_height (blocks (db empty_world))) \<and>
   distinct (map tx_hash (transactions (db empty_world))) \<and>
   (\<exists>w2. index_blocks_batch (example_env (\<lambda>h. JNull) 0) example_batch example_batch_world
           = (w2, Inl IntegrityError) \<and> db w2 = db example_batch_world) \<and>
   distinct (map blk_height (blocks (db example_batch_world))) \<and>
   distinct (map tx_hash (transactions (db example_batch_world)))"
proof -
  have "snd (index_blocks_batch (example_env (\<lambda>h. JNull) 0) example_batch empty_world) = Inr ()"
    by code_simp
  then have ok: "index_blocks_batch (example_env (\<lambda>h. JNull) 0) example_batch empty_world
     = (example_batch_world, Inr ())"
    by (simp add: example_batch_world_def prod_eq_iff)
  have ne: "example_batch \<noteq> []"
    by (simp add: example_batch_def)
  have d: "distinct (map blk_height (blocks (db empty_world)))"
    "distinct (map tx_hash (transactions (db empty_world)))"
    by (simp_all add: empty_world_def)
  from repersist_is_rejected[OF ok ne] ok ne d show ?thesis by blast
qed

text \<open>
  The claim as the specification words it (the second run succeeds, by upsert) fails: the
  first run on the empty store returns normally, the second raises the integrity error.
\<close>

theorem repersist_does_not_succeed_counterexample:
  "snd (index_blocks_batch (example_env (\<lambda>h. JNull) 0) example_batch empty_world) = Inr () \<and>
   snd (index_blocks_batch (example_env (\<lambda>h. JNull) 0) example_batch example_batch_world)
     = Inl IntegrityError"
  by code_simp

subsection \<open>Watermark\<close>

text \<open>
  Claim C4, as the code has it. A committed persist of a non-empty batch appends the
  batch's block rows and sets the watermark to the larger of 0 and the maximum height
  among them, so to that maximum when the heights are not negative. The persist does not
  look at the stored watermark: when no stored block lies above the watermark and the
  batch lies above it, the watermark grows and is the maximum height in the store.
  The catch-up loop produces such batches: started above the watermark, with a node that
  answers a request for a height with a block of that height, it never lowers the
  watermark, leaves no stored block above it, and once anything was committed the
  watermark is the maximum height in the store.
\<close>

theorem watermark_tracks_max_height:
  "(index_blocks_batch E blocks_data w = (w', Inr ()) \<and> blocks_data \<noteq> [] \<longrightarrow>
      (\<exists>new. new \<noteq> [] \<and> blocks (db w') = blocks (db w) @ new \<and>
         indexed_height_of (db w') = Max (insert 0 (blk_height ` set new)) \<and>
         ((\<forall>b\<in>set new. 0 \<le> blk_height b) \<longrightarrow>
            indexed_height_of (db w') = Max (blk_height ` set new)) \<and>
         (watermark_covers (db w) \<and> (\<forall>b\<in>set new. indexed_height_of (db w) < blk_height b) \<longrightarrow>
            indexed_height_of (db w) < indexed_height_of (db w') \<and>
            indexed_height_of (db w') = Max (blk_height ` set (blocks (db w'))) \<and>
            watermark_covers (db w')))) \<and>
   ((\<forall>h\<in>set [a..b]. answers_own_height E h) \<and> watermark_covers (db v) \<and>
    indexed_height_of (db v) < a \<longrightarrow>
      indexed_height_of (db v) \<le> indexed_height_of (db (fst (sync_blocks_batch E a b v))) \<and>
      watermark_covers (db (fst (sync_blocks_batch E a b v))) \<and>
      (db (fst (sync_blocks_batch E a b v)) = db v \<or>
       indexed_height_of (db (fst (sync_blocks_batch E a b v)))
         = Max (blk_height ` set (blocks (db (fst (sync_blocks_batch E a b v)))))))"
proof (intro conjI impI)
  assume "index_blocks_batch E blocks_data w = (w', Inr ()) \<and> blocks_data \<noteq> []"
  then have ok: "index_blocks_batch E blocks_data w = (w', Inr ())" and ne: "blocks_data \<noteq> []"
    by simp_all
  from persist_watermark[OF ok ne] obtain new where
    n: "new \<noteq> []" "blocks (db w') = blocks (db w) @ new"
       "indexed_height_of (db w') = Max (insert 0 (blk_height ` set new))"
    by blast
  from persist_watermark_facts[OF ok ne] obtain new' where
    n': "blocks (db w') = blocks (db w) @ new'"
        "(\<forall>b\<in>set new'. 0 \<le> blk_height b) \<longrightarrow>
            indexed_height_of (db w') = Max (blk_height ` set new')"
        "watermark_covers (db w) \<and> (\<forall>b\<in>set new'. indexed_height_of (db w) < blk_height b) \<longrightarrow>
            indexed_height_of (db w) < indexed_height_of (db w') \<and>
            indexed_height_of (db w') = Max (blk_height ` set new') \<and>
            indexed_height_of (db w') = Max (blk_height ` set (blocks (db w'))) \<and>
            watermark_covers (db w')"
    by blast
  from n(2) n'(1) have "new' = new" by simp
  with n n' show "\<exists>new. new \<noteq> [] \<and> blocks (db w') = blocks (db w) @ new \<and>
         indexed_height_of (db w') = Max (insert 0 (blk_height ` set new)) \<and>
         ((\<forall>b\<in>set new. 0 \<le> blk_height b) \<longrightarrow>
            indexed_height_of (db w') = Max (blk_height ` set new)) \<and>
         (watermark_covers (db w) \<and> (\<forall>b\<in>set new. indexed_height_of (db w) < blk_height b) \<longrightarrow>
            indexed_height_of (db w) < indexed_height_of (db w') \<and>
            indexed_height_of (db w') = Max (blk_height ` set (blocks (db w'))) \<and>
            watermark_covers (db w'))"
    by blast
next
  assume h: "(\<forall>h\<in>set [a..b]. answers_own_height E h) \<and> watermark_covers (db v) \<and>
    indexed_height_of (db v) < a"
  then have h1: "\<forall>h\<in>set [a..b]. answers_own_height E h" and h2: "watermark_covers (db v)"
    and h3: "indexed_height_of (db v) < a"
    by simp_all
  note r = sync_batches_watermark[OF h1 h2 h3]
  from r show "indexed_height_of (db v) \<le> indexed_height_of (db (fst (sync_blocks_batch E a b v)))"
    by (simp add: sync_blocks_batch_def)
  from r show "watermark_covers (db (fst (sync_blocks_batch E a b v)))"
    by (simp add: sync_blocks_batch_def)
  from r show "db (fst (sync_blocks_batch E a b v)) = db v \<or>
       indexed_height_of (db (fst (sync_blocks_batch E a b v)))
         = Max (blk_height ` set (blocks (db (fst (sync_blocks_batch E a b v)))))"
    by (simp add: sync_blocks_batch_def)
qed

text \<open>One block persisted into the empty store, and the catch-up over 1..52 from the
  empty store against the node that serves 1, 2, 51 and 52: two sub-batches, two commits,
  the watermark going from 0 to 2 to 52.\<close>

theorem watermark_tracks_max_height_witness:
  "index_blocks_batch (example_env sparse_chain 52) example_batch empty_world
     = (example_batch_world, Inr ()) \<and>
   example_batch \<noteq> [] \<and>
   watermark_covers (db empty_world) \<and>
   indexed_height_of (db empty_world) = 0 \<and>
   map blk_height (blocks (db example_batch_world)) = [1] \<and>
   indexed_height_of (db example_batch_world) = 1 \<and>
   watermark_covers (db example_batch_world) \<and>
   list_all (answers_own_height (example_env sparse_chain 52)) [1..52] \<and>
   map blk_height (blocks (db sparse_world_first)) = [1, 2] \<and>
   indexed_height_of (db sparse_world_first) = 2 \<and>
   map blk_height (blocks (db sparse_world)) = [1, 2, 51, 52] \<and>
   indexed_height_of (db sparse_world) = 52 \<and>
   filter (\<lambda>e. e = TxCommit) (trace sparse_world) = [TxCommit, TxCommit] \<and>
   indexed_height_of (db empty_world) \<le> indexed_height_of (db sparse_world) \<and>
   watermark_covers (db sparse_world)"
proof -
  have ok: "index_blocks_batch (example_env sparse_chain 52) example_batch empty_world
     = (example_batch_world, Inr ())"
    by code_simp
  have ne: "example_batch \<noteq> []"
    by (simp add: example_batch_def)
  have cov: "watermark_covers (db empty_world)" "indexed_height_of (db empty_world) = 0"
    by (simp_all add: watermark_covers_def empty_world_def indexed_height_of_def)
  have one: "map blk_height (blocks (db example_batch_world)) = [1] \<and>
             indexed_height_of (db example_batch_world) = 1"
    by code_simp
  have first: "map blk_height (blocks (db sparse_world_first)) = [1, 2] \<and>
     indexed_height_of (db sparse_world_first) = 2"
    by code_simp
  have both: "map blk_height (blocks (db sparse_world)) = [1, 2, 51, 52] \<and>
     indexed_height_of (db sparse_world) = 52 \<and>
     filter (\<lambda>e. e = TxCommit) (trace sparse_world) = [TxCommit, TxCommit]"
    by code_simp
  have ans: "list_all (answers_own_height (example_env sparse_chain 52)) [1..52]"
    by code_simp
  from ans have ans': "\<forall>h\<in>set [1..52]. answers_own_height (example_env sparse_chain 52) h"
    by (simp only: list_all_iff)
  note t = watermark_tracks_max_height
         [of "example_env sparse_chain 52" example_batch empty_world example_batch_world
             1 52 empty_world]
  from t ok ne obtain new where
    n: "blocks (db example_batch_world) = blocks (db empty_world) @ new"
       "watermark_covers (db empty_world) \<and>
          (\<forall>b\<in>set new. indexed_height_of (db empty_world) < blk_height b) \<longrightarrow>
            indexed_height_of (db empty_world) < indexed_height_of (db example_batch_world) \<and>
            indexed_height_of (db example_batch_world)
              = Max (blk_height ` set (blocks (db example_batch_world))) \<and>
            watermark_covers (db example_batch_world)"
    by blast
  from n(1) have "map blk_height new = [1]"
    using one by (simp add: empty_world_def)
  then have "\<forall>b\<in>set new. indexed_height_of (db empty_world) < blk_height b"
    using cov(2) by (metis list.set_map list.simps(15) empty_set singletonD image_eqI zero_less_one)
  with n(2) cov have c1: "watermark_covers (db example_batch_world)"
    by blast
  from t ans' cov
  have c2: "indexed_height_of (db empty_world) \<le> indexed_height_of (db sparse_world) \<and>
            watermark_covers (db sparse_world)"
    by (simp add: sparse_world_def)
  from ok ne cov one first both ans c1 c2 show ?thesis
    by simp
qed

text \<open>
  The claim as the specification words it, without those conditions, fails. A block of
  height 5 and then a block of height 3 are both committed, and the watermark goes from
  5 to 3 while the store holds height 5. A block of height -3 is committed with the
  watermark 0.
\<close>

theorem watermark_not_monotone_counterexample:
  "snd (index_blocks_batch (example_env (\<lambda>h. JNull) 0) [example_block 5 ''old'' 0 []] empty_world)
     = Inr () \<and>
   indexed_height_of (db (fst (index_blocks_batch (example_env (\<lambda>h. JNull) 0)
      [example_block 5 ''old'' 0 []] empty_world))) = 5 \<and>
   snd (index_blocks_batch (example_env (\<lambda>h. JNull) 0) [example_block 3 ''old'' 0 []]
       (fst (index_blocks_batch (example_env (\<lambda>h. JNull) 0) [example_block 5 ''old'' 0 []]
          empty_world))) = Inr () \<and>
   map blk_height (blocks (db late_block_world)) = [5, 3] \<and>
   indexed_height_of (db late_block_world) = 3 \<and>
   snd (index_blocks_batch (example_env (\<lambda>h. JNull) 0) [example_block (- 3) ''old'' 0 []] empty_world)
     = Inr () \<and>
   map blk_height (blocks (db negative_block_world)) = [- 3] \<and>
   indexed_height_of (db negative_block_world) = 0"
  by code_simp

subsection \<open>Reorg Detector\<close>

lemma reorg_scan_db: "db (fst (reorg_scan E hs w)) = db w"
  by (induction hs arbitrary: w)
     (auto simp: emit_def Let_def split: option.splits sum.splits)

lemma reorg_scan_first_mismatch:
  assumes "\<forall>k\<in>set pre. probe_passes E (db w) k" and "hash_mismatch E (db w) h"
  shows "snd (reorg_scan E (pre @ h # post) w) = Inr (Some h)"
  using assms
proof (induction pre arbitrary: w)
  case Nil
  then show ?case
    by (auto simp: hash_mismatch_def stored_block_def Let_def split: option.splits sum.splits)
next
  case (Cons k pre)
  have dbe: "db (emit (NetGetBlock k) w) = db w" by (simp add: emit_def)
  from Cons.prems have k: "probe_passes E (db w) k" and rest: "\<forall>j\<in>set pre. probe_passes E (db w) j"
    by simp_all
  have "reorg_scan E ((k # pre) @ h # post) w = reorg_scan E (pre @ h # post) w \<or>
        reorg_scan E ((k # pre) @ h # post) w = reorg_scan E (pre @ h # post) (emit (NetGetBlock k) w)"
    using k by (auto simp: probe_passes_def stored_block_def Let_def split: option.splits)
  then show ?case
    using Cons.IH[of w] Cons.IH[of "emit (NetGetBlock k) w"] rest Cons.prems(2) dbe by auto
qed

lemma reorg_scan_all_pass:
  assumes "\<forall>k\<in>set hs. probe_passes E (db w) k"
  shows "snd (reorg_scan E hs w) = Inr None"
  using assms
proof (induction hs arbitrary: w)
  case Nil
  then show ?case by simp
next
  case (Cons k hs)
  have dbe: "db (emit (NetGetBlock k) w) = db w" by (simp add: emit_def)
  from Cons.prems have k: "probe_passes E (db w) k" and rest: "\<forall>j\<in>set hs. probe_passes E (db w) j"
    by simp_all
  have "reorg_scan E (k # hs) w = reorg_scan E hs w \<or>
        reorg_scan E (k # hs) w = reorg_scan E hs (emit (NetGetBlock k) w)"
    using k by (auto simp: probe_passes_def stored_block_def Let_def split: option.splits)
  then show ?case
    using Cons.IH[of w] Cons.IH[of "emit (NetGetBlock k) w"] rest dbe by auto
qed

lemma session_scan:
  assumes "\<not> commit_fails E (db w)"
  shows "snd (get_session_context E (reorg_scan E hs) w) = snd (reorg_scan E hs (emit TxBegin w))"
proof -
  obtain w' r where p: "reorg_scan E hs (emit TxBegin w) = (w', r)"
    by (cases "reorg_scan E hs (emit TxBegin w)")
  have "db w' = db w"
    using reorg_scan_db[of E hs "emit TxBegin w"] p by (simp add: emit_def)
  with assms p show ?thesis
    by (cases r) (simp_all add: get_session_context_def)
qed

lemma detect_reorg_scan:
  assumes "\<not> commit_fails E (db w)" and "indexed_height_of (db w) \<noteq> 0"
  shows "snd (detect_reorg E w) =
           snd (reorg_scan E (rev [max 1 (indexed_height_of (db w) - resync_depth E)..indexed_height_of (db w)])
                  (emit TxBegin (emit TxCommit (emit TxBegin w))))"
proof -
  have g: "get_indexed_height E w = (emit TxCommit (emit TxBegin w), Inr (indexed_height_of (db w)))"
    using assms(1) by (simp add: get_indexed_height_def get_session_context_def emit_def)
  have c: "\<not> commit_fails E (db (emit TxCommit (emit TxBegin w)))"
    using assms(1) by (simp add: emit_def)
  show ?thesis
    unfolding detect_reorg_def g using assms(2) session_scan[OF c]
    by (simp add: wbind_def Let_def emit_def)
qed

lemma detect_reorg_first_mismatch:
  assumes "\<not> commit_fails E (db w)" and "indexed_height_of (db w) \<noteq> 0"
    and "max 1 (indexed_height_of (db w) - resync_depth E) \<le> h" and "h \<le> indexed_height_of (db w)"
    and "hash_mismatch E (db w) h"
    and "\<forall>k\<in>set [h + 1..indexed_height_of (db w)]. probe_passes E (db w) k"
  shows "snd (detect_reorg E w) = Inr (Some h)"
proof -
  let ?W = "indexed_height_of (db w)"
  let ?lo = "max 1 (?W - resync_depth E)"
  let ?w1 = "emit TxBegin (emit TxCommit (emit TxBegin w))"
  have "[?lo..?W] = [?lo..h - 1] @ h # [h + 1..?W]"
    using assms(3,4) by (rule upto_split3)
  then have r: "rev [?lo..?W] = rev [h + 1..?W] @ h # rev [?lo..h - 1]"
    by simp
  have dbw: "db ?w1 = db w" by (simp add: emit_def)
  have "snd (reorg_scan E (rev [h + 1..?W] @ h # rev [?lo..h - 1]) ?w1) = Inr (Some h)"
    using assms(5,6) dbw by (intro reorg_scan_first_mismatch) simp_all
  with detect_reorg_scan[OF assms(1,2)] r show ?thesis by simp
qed

lemma detect_reorg_all_pass:
  assumes "\<not> commit_fails E (db w)" and "indexed_height_of (db w) \<noteq> 0"
    and "\<forall>k\<in>set [max 1 (indexed_height_of (db w) - resync_depth E)..indexed_height_of (db w)].
           probe_passes E (db w) k"
  shows "snd (detect_reorg E w) = Inr None"
proof -
  let ?w1 = "emit TxBegin (emit TxCommit (emit TxBegin w))"
  have dbw: "db ?w1 = db w" by (simp add: emit_def)
  have "snd (reorg_scan E (rev [max 1 (indexed_height_of (db w) - resync_depth E)..indexed_height_of (db w)]) ?w1)
          = Inr None"
    using assms(3) dbw by (intro reorg_scan_all_pass) simp
  with detect_reorg_scan[OF assms(1,2)] show ?thesis by simp
qed

lemma reorged_probe_view:
  "probe_view (example_env reorged_chain 10) (db example_chain_world) [1, 2, 3, 4, 5, 6, 7, 8, 9, 10] =
     [(1, True, False), (2, True, False), (3, True, False), (4, True, False), (5, True, False),
      (6, True, False), (7, False, True), (8, False, True), (9, False, True), (10, False, True)]"
  by code_simp

lemma half_reachable_probe_view:
  "probe_view (example_env half_reachable_chain 10) (db example_chain_world) [8, 9, 10] =
     [(8, False, True), (9, True, False), (10, True, False)]"
  by code_simp

text \<open>C1. The Reorg Detector scans the window from the watermark downward and stops at the
  first height where the stored hash and the hash recomputed from the node's block differ. So,
  when the read of the watermark and the scan's transaction commit and the watermark is not 0:
  it returns a height \<open>h\<close> of the window when the hashes differ at \<open>h\<close> and every height of the
  window above \<open>h\<close> is not stored, is not served by the node, or has equal hashes, which makes
  \<open>h\<close> the highest height of the window where the hashes are seen to differ, not the lowest; and
  it returns no height when this holds of every height of the window.\<close>

theorem detect_reorg_returns_highest_mismatch:
  assumes "\<not> commit_fails E (db w)" and "indexed_height_of (db w) \<noteq> 0"
  shows "(max 1 (indexed_height_of (db w) - resync_depth E) \<le> h \<and> h \<le> indexed_height_of (db w) \<and>
          hash_mismatch E (db w) h \<and>
          (\<forall>k\<in>set [h + 1..indexed_height_of (db w)]. probe_passes E (db w) k)
          \<longrightarrow> snd (detect_reorg E w) = Inr (Some h)) \<and>
         ((\<forall>k\<in>set [max 1 (indexed_height_of (db w) - resync_depth E)..indexed_height_of (db w)].
              probe_passes E (db w) k)
          \<longrightarrow> snd (detect_reorg E w) = Inr None)"
  using detect_reorg_first_mismatch[OF assms] detect_reorg_all_pass[OF assms] by blast

theorem detect_reorg_returns_highest_mismatch_witness:
  "map blk_height (blocks (db example_chain_world)) = [1, 2, 3, 4, 5, 6, 7, 8, 9, 10] \<and>
   probe_view (example_env half_reachable_chain 10) (db example_chain_world) [8, 9, 10] =
     [(8, False, True), (9, True, False), (10, True, False)] \<and>
   snd (detect_reorg (example_env half_reachable_chain 10) example_chain_world) = Inr (Some 8) \<and>
   probe_view (example_env example_chain 10) (db example_chain_world) [1, 2, 3, 4, 5, 6, 7, 8, 9, 10] =
     map (\<lambda>h. (h, True, False)) [1, 2, 3, 4, 5, 6, 7, 8, 9, 10] \<and>
   snd (detect_reorg (example_env example_chain 10) example_chain_world) = Inr None"
proof -
  let ?E = "example_env half_reachable_chain 10"
  let ?s = "db example_chain_world"
  have W: "indexed_height_of ?s = 10" using example_chain_world_rows by simp
  have cf: "\<not> commit_fails ?E ?s" "resync_depth ?E = 10"
    "\<not> commit_fails (example_env example_chain 10) ?s" "resync_depth (example_env example_chain 10) = 10"
    by (simp_all add: example_env_def)
  have up: "[9..10::int] = [9, 10]" "[1..10::int] = [1, 2, 3, 4, 5, 6, 7, 8, 9, 10]"
    by (simp_all add: upto.simps)
  have pv: "hash_mismatch ?E ?s 8" "probe_passes ?E ?s 9" "probe_passes ?E ?s 10"
    using half_reachable_probe_view by (simp_all add: probe_view_def)
  have a: "snd (detect_reorg ?E example_chain_world) = Inr (Some 8)"
    using detect_reorg_returns_highest_mismatch[of ?E example_chain_world 8] cf W pv up
    by simp
  have agree: "probe_view (example_env example_chain 10) ?s [1, 2, 3, 4, 5, 6, 7, 8, 9, 10] =
     map (\<lambda>h. (h, True, False)) [1, 2, 3, 4, 5, 6, 7, 8, 9, 10]"
    by code_simp
  have b: "snd (detect_reorg (example_env example_chain 10) example_chain_world) = Inr None"
    using detect_reorg_returns_highest_mismatch[of "example_env example_chain 10" example_chain_world 0]
      cf W agree up
    by (simp add: probe_view_def)
  show ?thesis using example_chain_world_rows half_reachable_probe_view a agree b by simp
qed

text \<open>The stored chain of heights 1..10 against a node whose hash differs at every height
  from 7 upward: the detector returns 10, not 7.\<close>

theorem detect_reorg_returns_tip_counterexample:
  "map blk_height (blocks (db example_chain_world)) = [1, 2, 3, 4, 5, 6, 7, 8, 9, 10] \<and>
   indexed_height_of (db example_chain_world) = 10 \<and>
   map (\<lambda>(h, agree, differ). (h, differ))
     (probe_view (example_env reorged_chain 10) (db example_chain_world) [1, 2, 3, 4, 5, 6, 7, 8, 9, 10]) =
     [(1, False), (2, False), (3, False), (4, False), (5, False), (6, False),
      (7, True), (8, True), (9, True), (10, True)] \<and>
   snd (detect_reorg (example_env reorged_chain 10) example_chain_world) = Inr (Some 10) \<and>
   snd (detect_reorg (example_env reorged_chain 10) example_chain_world) \<noteq> Inr (Some 7)"
proof -
  let ?E = "example_env reorged_chain 10"
  let ?s = "db example_chain_world"
  have W: "indexed_height_of ?s = 10" using example_chain_world_rows by simp
  have cf: "\<not> commit_fails ?E ?s" "resync_depth ?E = 10"
    by (simp_all add: example_env_def)
  have pv: "hash_mismatch ?E ?s 10"
    using reorged_probe_view by (simp add: probe_view_def)
  have a: "snd (detect_reorg ?E example_chain_world) = Inr (Some 10)"
    using detect_reorg_first_mismatch[of ?E example_chain_world 10] cf W pv
    by simp
  show ?thesis using example_chain_world_rows reorged_probe_view a by simp
qed

end
